theory Spec2Isabelle
  imports Main "HOL-Library.Sublist"
begin

section \<open>JavaScript strings and insertion-ordered sets\<close>

text \<open>
  Strings are character lists. \<open>startsWith\<close> and \<open>endsWith\<close> are the methods of
  \<open>String.prototype\<close>; \<open>split_on c\<close> is \<open>s.split(c)\<close> for a one-character separator
  (it never returns the empty array: the empty string splits into one empty segment), and
  \<open>at_last\<close> is \<open>.at(-1)\<close>, which is \<open>undefined\<close> (\<open>None\<close>) on the empty array only.
\<close>

definition startsWith :: "string \<Rightarrow> string \<Rightarrow> bool" where
  "startsWith s p = (take (length p) s = p)"

definition endsWith :: "string \<Rightarrow> string \<Rightarrow> bool" where
  "endsWith s p = (length p \<le> length s \<and> drop (length s - length p) s = p)"

fun split_on :: "char \<Rightarrow> string \<Rightarrow> string list" where
  "split_on c [] = [[]]"
| "split_on c (x # xs) =
     (if x = c then [] # split_on c xs
      else (case split_on c xs of
              [] \<Rightarrow> [[x]]
            | seg # segs \<Rightarrow> (x # seg) # segs))"

definition at_last :: "'a list \<Rightarrow> 'a option" where
  "at_last xs = (if xs = [] then None else Some (last xs))"

text \<open>
  A JavaScript \<open>Set\<close> of strings keeps its members in insertion order and \<open>Array.from\<close>
  lists them in that order: a list without repetitions, \<open>set_add\<close> being \<open>Set.add\<close>.
\<close>

definition set_add :: "'a list \<Rightarrow> 'a \<Rightarrow> 'a list" where
  "set_add s x = (if x \<in> set s then s else s @ [x])"

section \<open>The dependency tables and the classifier\<close>

text \<open>The tables of the registry build script: a package with its peer dependencies, and
  the packages whose latest tag is replaced by another specifier.\<close>

definition DEPENDENCIES :: "(string \<times> string list) list" where
  "DEPENDENCIES =
     [(''@vueuse/core'', []),
      (''vue-sonner'', []),
      (''vaul-vue'', []),
      (''v-calendar'', []),
      (''@tanstack/vue-table'', []),
      (''@unovis/vue'', [''@unovis/ts'']),
      (''embla-carousel-vue'', []),
      (''vee-validate'', [''@vee-validate/zod'', ''zod''])]"

definition DEPENDENCIES_WITH_TAGS :: "(string \<times> string) list" where
  "DEPENDENCIES_WITH_TAGS = [(''v-calendar'', ''v-calendar@next'')]"

definition REGISTRY_DEPENDENCY :: string where
  "REGISTRY_DEPENDENCY = ''@/''"

text \<open>The two sets \<open>getFileDependencies\<close> fills and returns.\<close>

record file_deps =
  registryDependencies_set :: "string list"
  dependencies_set :: "string list"

definition no_deps :: file_deps where
  "no_deps = \<lparr>registryDependencies_set = [], dependencies_set = []\<rparr>"

text \<open>
  \<open>populateDeps\<close>, the closure of \<open>getFileDependencies\<close>, with the two sets it mutates
  passed in and returned. The two \<open>if\<close> statements of the source are independent: the
  second one runs whatever the first one did.
\<close>

definition populateDeps :: "file_deps \<Rightarrow> string \<Rightarrow> file_deps" where
  "populateDeps st source =
     (let peerDeps = map_of DEPENDENCIES source;
          taggedDeps = map_of DEPENDENCIES_WITH_TAGS source;
          st1 = (case peerDeps of
                   None \<Rightarrow> st
                 | Some peers \<Rightarrow>
                     st\<lparr>dependencies_set :=
                          foldl set_add
                            (case taggedDeps of
                               Some tagged \<Rightarrow> set_add (dependencies_set st) tagged
                             | None \<Rightarrow> set_add (dependencies_set st) source)
                            peers\<rparr>)
      in if startsWith source REGISTRY_DEPENDENCY
         then (case at_last (split_on CHR ''/'' source) of
                 Some component \<Rightarrow>
                   st1\<lparr>registryDependencies_set :=
                          set_add (registryDependencies_set st1) component\<rparr>
               | None \<Rightarrow> st1)
         else st1)"


section \<open>The registry data model\<close>

text \<open>The exceptions: of the file system, of a parser, and the \<open>TypeError\<close> JavaScript
  itself throws.\<close>

datatype error = FsError string | ParseFailure string | TypeError string

datatype registry_type =
  Registry_ui | Registry_example | Registry_block | Registry_page
| Registry_component | Registry_hook

text \<open>A file of a registry item. An empty \<open>content\<close> or \<open>target\<close> is JavaScript's
  falsy string; \<open>file_name\<close> is the \<open>name\<close> property only the single-file crawls set.\<close>

record registry_file =
  file_name :: "string option"
  content :: string
  path :: string
  target :: string
  file_type :: registry_type

record registry_item =
  name :: string
  item_type :: registry_type
  files :: "registry_file list"
  registryDependencies :: "string list"
  dependencies :: "string list"

section \<open>The world of the build script\<close>

text \<open>
  The build script reads a directory tree and calls two parsers. None of them is part of
  the script, so they are parameters of the model: every theorem holds for all of them.
  A call that can throw returns a sum, \<open>Inl\<close> the exception.

  A \<open>Dirent\<close> has the entry's base name and its kind.
  \<open>readdir p recursive\<close> is \<open>readdir(p, {withFileTypes: true, recursive})\<close>.
  \<open>parseSync\<close> gives the body of the program (for an import declaration, its source
  value), \<open>parse\<close> the descriptor of a single-file component (the content of its plain
  and its setup script block, \<open>None\<close> for a missing block), \<open>compileScript\<close> the compiled
  script block: its property \<open>imports\<close> and the syntax tree of the plain script block.

  The property \<open>imports\<close> is optional. The compiler sets it when the component has a setup
  script block: the resolved import bindings (local name and source, in the order of
  \<open>Object.values\<close>). For a component with a plain script block only it returns the block
  without it, and \<open>compiled_imports\<close> is \<open>None\<close>, JavaScript's \<open>undefined\<close>. (A missing
  syntax tree is the empty list: the walk does nothing on either.)
\<close>

datatype dirent_kind = Dirent_file | Dirent_directory | Dirent_other

record dirent =
  dirent_name :: string
  dirent_kind :: dirent_kind

definition isFile :: "dirent \<Rightarrow> bool" where
  "isFile d = (dirent_kind d = Dirent_file)"

definition isDirectory :: "dirent \<Rightarrow> bool" where
  "isDirectory d = (dirent_kind d = Dirent_directory)"

datatype oxc_statement = ImportDeclaration string | OtherStatement

record descriptor =
  script :: "string option"
  scriptSetup :: "string option"

text \<open>
  The values the metadata object holds. A JavaScript number is a double; the model does
  not look into it, so \<open>js_number\<close> is a type of its own, with nothing known of it but
  equality.
\<close>

typedecl js_number

instantiation js_number :: equal
begin

definition equal_js_number :: "js_number \<Rightarrow> js_number \<Rightarrow> bool" where
  "equal_js_number x y \<longleftrightarrow> x = y"

instance
  by standard (simp add: equal_js_number_def)

end

datatype jsvalue =
  JSUndefined | JSNull | JSString string | JSNumber js_number | JSBoolean bool

text \<open>
  An initializer, by the kind of its node. \<open>expression_value\<close> is the read \<open>init.value\<close>.
  The nodes of a string, a numeric and a boolean literal have a \<open>value\<close> property, the
  literal's value, and so has the node of a bigint literal, whose \<open>value\<close> is the string of
  its digits. No other node has one, and the read gives \<open>undefined\<close>: so for the literal
  \<open>null\<close>, a regular expression and a template literal, and for every expression that is
  not a literal.
\<close>

datatype expression =
  StringLiteral string
| NumericLiteral js_number
| BooleanLiteral bool
| BigIntLiteral string
| NullLiteral
| RegExpLiteral
| TemplateLiteral
| OtherExpression

fun expression_value :: "expression \<Rightarrow> jsvalue" where
  "expression_value (StringLiteral s) = JSString s"
| "expression_value (NumericLiteral n) = JSNumber n"
| "expression_value (BooleanLiteral b) = JSBoolean b"
| "expression_value (BigIntLiteral s) = JSString s"
| "expression_value NullLiteral = JSUndefined"
| "expression_value RegExpLiteral = JSUndefined"
| "expression_value TemplateLiteral = JSUndefined"
| "expression_value OtherExpression = JSUndefined"

text \<open>The declared pattern: \<open>decl.id.name\<close> is the name of an identifier and \<open>undefined\<close>
  for a destructuring pattern, which as a property key is the string \<open>undefined\<close>.\<close>

datatype pattern = Identifier string | OtherPattern

fun id_name :: "pattern \<Rightarrow> string" where
  "id_name (Identifier n) = n"
| "id_name OtherPattern = ''undefined''"

datatype declarator = VariableDeclarator pattern "expression option"

text \<open>The syntax tree as far as the metadata walk looks at it: an export declaration with
  its \<open>declaration\<close>, a variable declaration with its declarators, and any other node with
  its child nodes.\<close>

datatype node =
  ExportNamedDeclaration "node option"
| VariableDeclaration "declarator list"
| OtherNode "node list"

record compiled =
  compiled_imports :: "(string \<times> string) list option"
  scriptAst :: "node list"

record build_env =
  readdir :: "string \<Rightarrow> bool \<Rightarrow> error + dirent list"
  readFile :: "string \<Rightarrow> error + string"
  resolve :: "string list \<Rightarrow> string"
  join :: "string list \<Rightarrow> string"
  parseSync :: "string \<Rightarrow> string \<Rightarrow> error + oxc_statement list"
  parse :: "string \<Rightarrow> string \<Rightarrow> error + descriptor"
  compileScript :: "descriptor \<Rightarrow> error + compiled"

section \<open>Dependency extraction\<close>

text \<open>A script block counts when it is there and its content is not empty
  (\<open>descriptor.script?.content\<close>).\<close>

definition truthy_content :: "string option \<Rightarrow> bool" where
  "truthy_content c = (case c of None \<Rightarrow> False | Some x \<Rightarrow> x \<noteq> [])"

text \<open>
  \<open>getFileDependencies\<close>. A \<open>.ts\<close> file is parsed and \<open>populateDeps\<close> runs on the source
  of each of its import declarations, in order. Any other file is parsed as a component;
  when it has a script block, the block is compiled and \<open>populateDeps\<close> runs on the source
  of each value of \<open>compiled.imports\<close>. \<open>Object.values(undefined)\<close> throws a
  \<open>TypeError\<close>: that is the branch of a compiled block without \<open>imports\<close>.
\<close>

definition getFileDependencies :: "build_env \<Rightarrow> string \<Rightarrow> string \<Rightarrow> error + file_deps" where
  "getFileDependencies env filename sourceCode =
     (if endsWith filename ''.ts''
      then (case parseSync env sourceCode filename of
              Inl e \<Rightarrow> Inl e
            | Inr body \<Rightarrow>
                (let sources = List.map_filter
                       (\<lambda>i. case i of ImportDeclaration src \<Rightarrow> Some src
                                     | OtherStatement \<Rightarrow> None) body
                 in Inr (foldl populateDeps no_deps sources)))
      else (case parse env sourceCode filename of
              Inl e \<Rightarrow> Inl e
            | Inr parsed \<Rightarrow>
                if truthy_content (script parsed) \<or> truthy_content (scriptSetup parsed)
                then (case compileScript env parsed of
                        Inl e \<Rightarrow> Inl e
                      | Inr c \<Rightarrow>
                          (case compiled_imports c of
                             None \<Rightarrow>
                               Inl (TypeError ''Cannot convert undefined or null to object'')
                           | Some vals \<Rightarrow> Inr (foldl populateDeps no_deps (map snd vals))))
                else Inr no_deps))"

section \<open>Block metadata\<close>

text \<open>
  The metadata object: its own properties in insertion order, and its prototype, which is
  \<open>Object.prototype\<close> for an object literal. \<open>put_own\<close> overwrites the own property of
  that key when the object has it and adds it at the end otherwise.

  \<open>obj_assign\<close> is the assignment \<open>obj[key] = v\<close>. For every key but one it is
  \<open>put_own\<close>. The key \<open>__proto__\<close> is an accessor of \<open>Object.prototype\<close>: on an object
  that inherits it and has no own property of that name the assignment runs its setter,
  which adds no property; it sets the prototype when \<open>v\<close> is \<open>null\<close> (or an object, which
  the values assigned here never are) and does nothing otherwise. On an object whose
  prototype is \<open>null\<close> the key is a key like any other.
\<close>

datatype prototype = Object_prototype | Null_prototype

record js_object =
  own_properties :: "(string \<times> jsvalue) list"
  proto :: prototype

type_synonym metadata = js_object

definition initial_metadata :: metadata where
  "initial_metadata =
     \<lparr>own_properties =
        [(''description'', JSNull), (''iframeHeight'', JSNull), (''containerClass'', JSNull)],
      proto = Object_prototype\<rparr>"

fun put_own :: "(string \<times> jsvalue) list \<Rightarrow> string \<Rightarrow> jsvalue \<Rightarrow> (string \<times> jsvalue) list" where
  "put_own [] k v = [(k, v)]"
| "put_own ((k', v') # ps) k v =
     (if k' = k then (k, v) # ps else (k', v') # put_own ps k v)"

definition obj_assign :: "js_object \<Rightarrow> string \<Rightarrow> jsvalue \<Rightarrow> js_object" where
  "obj_assign obj k v =
     (if k = ''__proto__'' \<and> proto obj = Object_prototype
         \<and> map_of (own_properties obj) k = None
      then (if v = JSNull then obj\<lparr>proto := Null_prototype\<rparr> else obj)
      else obj\<lparr>own_properties := put_own (own_properties obj) k v\<rparr>)"

text \<open>The assignment \<open>metadata[decl.id.name] = decl.init ? decl.init.value : null\<close>.\<close>

fun assign_declarator :: "metadata \<Rightarrow> declarator \<Rightarrow> metadata" where
  "assign_declarator m (VariableDeclarator i init) =
     obj_assign m (id_name i)
       (case init of Some e \<Rightarrow> expression_value e | None \<Rightarrow> JSNull)"

text \<open>The \<open>enter\<close> callback: it looks at the \<open>declaration\<close> property of the node.\<close>

fun enter :: "metadata \<Rightarrow> node \<Rightarrow> metadata" where
  "enter m (ExportNamedDeclaration (Some (VariableDeclaration ds))) =
     foldl assign_declarator m ds"
| "enter m n = m"

text \<open>\<open>walk\<close> calls \<open>enter\<close> on a node and then walks its child nodes, at any depth.\<close>

fun walk :: "metadata \<Rightarrow> node \<Rightarrow> metadata" where
  "walk m (ExportNamedDeclaration None) = enter m (ExportNamedDeclaration None)"
| "walk m (ExportNamedDeclaration (Some d)) =
     walk (enter m (ExportNamedDeclaration (Some d))) d"
| "walk m (VariableDeclaration ds) = enter m (VariableDeclaration ds)"
| "walk m (OtherNode cs) = foldl walk (enter m (OtherNode cs)) cs"

definition getBlockMetadata :: "build_env \<Rightarrow> string \<Rightarrow> string \<Rightarrow> error + metadata" where
  "getBlockMetadata env filename sourceCode =
     (if endsWith filename ''.vue''
      then (case parse env sourceCode filename of
              Inl e \<Rightarrow> Inl e
            | Inr d \<Rightarrow>
                if truthy_content (script d)
                then (case compileScript env d of
                        Inl e \<Rightarrow> Inl e
                      | Inr ast \<Rightarrow> Inr (foldl walk initial_metadata (scriptAst ast)))
                else Inr initial_metadata)
      else Inr initial_metadata)"

section \<open>The crawls\<close>

definition merge_deps :: "file_deps \<Rightarrow> file_deps \<Rightarrow> file_deps" where
  "merge_deps acc deps =
     \<lparr>registryDependencies_set =
        foldl set_add (registryDependencies_set acc) (registryDependencies_set deps),
      dependencies_set = foldl set_add (dependencies_set acc) (dependencies_set deps)\<rparr>"

text \<open>The loop of \<open>buildUIRegistry\<close> over the entries of the component directory, with
  the files and the two sets collected so far. (\<open>getFileDependencies\<close> returns an object,
  so the test \<open>!deps\<close> of the source never holds; the same in \<open>buildBlockRegistry\<close>.)\<close>

fun buildUIRegistry_loop ::
  "build_env \<Rightarrow> string \<Rightarrow> string \<Rightarrow> dirent list \<Rightarrow> registry_file list \<times> file_deps
   \<Rightarrow> error + registry_file list \<times> file_deps" where
  "buildUIRegistry_loop env componentPath componentName [] acc = Inr acc"
| "buildUIRegistry_loop env componentPath componentName (d # dir) (fs, deps) =
     (if \<not> isFile d then buildUIRegistry_loop env componentPath componentName dir (fs, deps)
      else
        let filepath = join env [componentPath, dirent_name d];
            relativePath = join env [''ui'', componentName, dirent_name d]
        in case readFile env filepath of
             Inl e \<Rightarrow> Inl e
           | Inr source \<Rightarrow>
               let target = componentName @ ''/'' @ dirent_name d;
                   fs' = fs @ [\<lparr>file_name = None, content = source, path = relativePath,
                                 target = target, file_type = Registry_ui\<rparr>]
               in if dirent_name d = ''index.ts''
                  then buildUIRegistry_loop env componentPath componentName dir (fs', deps)
                  else (case getFileDependencies env filepath source of
                          Inl e \<Rightarrow> Inl e
                        | Inr found \<Rightarrow>
                            buildUIRegistry_loop env componentPath componentName dir
                              (fs', merge_deps deps found)))"

definition buildUIRegistry :: "build_env \<Rightarrow> string \<Rightarrow> string \<Rightarrow> error + registry_item" where
  "buildUIRegistry env componentPath componentName =
     (case readdir env componentPath False of
        Inl e \<Rightarrow> Inl e
      | Inr dir \<Rightarrow>
          (case buildUIRegistry_loop env componentPath componentName dir ([], no_deps) of
             Inl e \<Rightarrow> Inl e
           | Inr (fs, deps) \<Rightarrow>
               Inr \<lparr>name = componentName, item_type = Registry_ui, files = fs,
                    registryDependencies = registryDependencies_set deps,
                    dependencies = dependencies_set deps\<rparr>))"

fun crawlUI_loop ::
  "build_env \<Rightarrow> string \<Rightarrow> dirent list \<Rightarrow> registry_item list \<Rightarrow> error + registry_item list" where
  "crawlUI_loop env rootPath [] uiRegistry = Inr uiRegistry"
| "crawlUI_loop env rootPath (d # dir) uiRegistry =
     (if \<not> isDirectory d then crawlUI_loop env rootPath dir uiRegistry
      else
        let componentPath = resolve env [rootPath, dirent_name d]
        in case buildUIRegistry env componentPath (dirent_name d) of
             Inl e \<Rightarrow> Inl e
           | Inr ui \<Rightarrow> crawlUI_loop env rootPath dir (uiRegistry @ [ui]))"

text \<open>\<open>crawlUI\<close> lists the ui root with \<open>recursive: true\<close>.\<close>

definition crawlUI :: "build_env \<Rightarrow> string \<Rightarrow> error + registry_item list" where
  "crawlUI env rootPath =
     (case readdir env rootPath True of
        Inl e \<Rightarrow> Inl e
      | Inr dir \<Rightarrow> crawlUI_loop env rootPath dir [])"

fun buildBlockRegistry_loop ::
  "build_env \<Rightarrow> string \<Rightarrow> string \<Rightarrow> dirent list \<Rightarrow> registry_file list \<times> file_deps
   \<Rightarrow> error + registry_file list \<times> file_deps" where
  "buildBlockRegistry_loop env blockPath blockName [] acc = Inr acc"
| "buildBlockRegistry_loop env blockPath blockName (d # dir) (fs, deps) =
     (if \<not> isFile d then buildBlockRegistry_loop env blockPath blockName dir (fs, deps)
      else
        let isPage = (dirent_name d = ''page.vue'');
            type = (if isPage then Registry_page else Registry_component);
            compPath = (if isPage then dirent_name d else ''components/'' @ dirent_name d);
            filepath = join env [blockPath, compPath];
            relativePath = join env [''block'', blockName, compPath]
        in case readFile env filepath of
             Inl e \<Rightarrow> Inl e
           | Inr source \<Rightarrow>
               let target = (if isPage then ''pages/dashboard/index.vue'' else []);
                   fs' = fs @ [\<lparr>file_name = None, content = source, path = relativePath,
                                 target = target, file_type = type\<rparr>]
               in case getFileDependencies env filepath source of
                    Inl e \<Rightarrow> Inl e
                  | Inr found \<Rightarrow>
                      buildBlockRegistry_loop env blockPath blockName dir
                        (fs', merge_deps deps found))"

definition buildBlockRegistry :: "build_env \<Rightarrow> string \<Rightarrow> string \<Rightarrow> error + registry_item" where
  "buildBlockRegistry env blockPath blockName =
     (case readdir env blockPath True of
        Inl e \<Rightarrow> Inl e
      | Inr dir \<Rightarrow>
          (case buildBlockRegistry_loop env blockPath blockName dir ([], no_deps) of
             Inl e \<Rightarrow> Inl e
           | Inr (fs, deps) \<Rightarrow>
               Inr \<lparr>name = blockName, item_type = Registry_block, files = fs,
                    registryDependencies = registryDependencies_set deps,
                    dependencies = dependencies_set deps\<rparr>))"

text \<open>\<open>before_first sep s\<close> is \<open>s.split(sep)[0]\<close> for a separator that is not empty.\<close>

fun before_first :: "string \<Rightarrow> string \<Rightarrow> string" where
  "before_first sep [] = []"
| "before_first sep (x # xs) =
     (if startsWith (x # xs) sep then [] else x # before_first sep xs)"

fun crawlBlock_loop ::
  "build_env \<Rightarrow> string \<Rightarrow> dirent list \<Rightarrow> registry_item list \<Rightarrow> error + registry_item list" where
  "crawlBlock_loop env rootPath [] registry = Inr registry"
| "crawlBlock_loop env rootPath (d # dir) registry =
     (if \<not> isFile d
      then (case buildBlockRegistry env (rootPath @ ''/'' @ dirent_name d) (dirent_name d) of
              Inl e \<Rightarrow> Inl e
            | Inr result \<Rightarrow>
                if length (files result) \<noteq> 0
                then crawlBlock_loop env rootPath dir (registry @ [result])
                else crawlBlock_loop env rootPath dir registry)
      else if \<not> endsWith (dirent_name d) ''.vue'' \<or> \<not> isFile d
      then crawlBlock_loop env rootPath dir registry
      else
        let name' = before_first ''.vue'' (dirent_name d);
            filepath = join env [rootPath, dirent_name d]
        in case readFile env filepath of
             Inl e \<Rightarrow> Inl e
           | Inr source \<Rightarrow>
               let relativePath = join env [''block'', dirent_name d];
                   file = \<lparr>file_name = Some (dirent_name d), content = source,
                           path = relativePath, target = ''pages/dashboard/index.vue'',
                           file_type = Registry_block\<rparr>
               in case getFileDependencies env filepath source of
                    Inl e \<Rightarrow> Inl e
                  | Inr found \<Rightarrow>
                      crawlBlock_loop env rootPath dir
                        (registry @
                         [\<lparr>name = name', item_type = Registry_block, files = [file],
                           registryDependencies = registryDependencies_set found,
                           dependencies = dependencies_set found\<rparr>]))"

definition crawlBlock :: "build_env \<Rightarrow> string \<Rightarrow> error + registry_item list" where
  "crawlBlock env rootPath =
     (case readdir env rootPath False of
        Inl e \<Rightarrow> Inl e
      | Inr dir \<Rightarrow> crawlBlock_loop env rootPath dir [])"

section \<open>The installer\<close>

text \<open>
  The configuration as far as \<open>updateFiles\<close> reads it itself: \<open>config.resolvedPaths.cwd\<close>,
  \<open>config.typescript\<close> and \<open>config.tailwind.baseColor\<close>. The options are optional
  properties; \<open>updateFiles\<close> fills a missing one with \<open>false\<close>.
\<close>

record config =
  cwd :: string
  typescript :: bool
  baseColor :: string

record options =
  overwrite :: "bool option"
  force :: "bool option"
  silent :: "bool option"

record projectInfo =
  isSrcDir :: bool

record transform_opts =
  filename :: string
  raw :: string
  transform_config :: config
  transform_baseColor :: string

text \<open>The two confirmation prompts, by what they ask about: the folder of a ui file, or
  a file that exists.\<close>

datatype prompt = Folder_exists string | File_exists string

text \<open>
  What \<open>updateFiles\<close> calls and does not define: the path library, the file system
  (\<open>'fs\<close> is the state of the disk, \<open>mkdir\<close> is called with \<open>recursive: true\<close>), the project
  helpers, the transformers and the user in front of the prompt. They are parameters, and
  a call that can throw returns a sum. The answer to a prompt may depend on everything
  asked before; \<open>False\<close> is a declined prompt and also a cancelled one, whose \<open>overwrite\<close>
  is \<open>undefined\<close>.
\<close>

record 'fs install_env =
  path_join :: "string list \<Rightarrow> string"
  basename :: "string \<Rightarrow> string"
  dirname :: "string \<Rightarrow> string"
  path_relative :: "string \<Rightarrow> string \<Rightarrow> string"
  existsSync :: "'fs \<Rightarrow> string \<Rightarrow> bool"
  mkdir :: "'fs \<Rightarrow> string \<Rightarrow> error + 'fs"
  writeFile :: "'fs \<Rightarrow> string \<Rightarrow> string \<Rightarrow> error + 'fs"
  getProjectInfo :: "string \<Rightarrow> error + projectInfo option"
  getRegistryBaseColor :: "string \<Rightarrow> error + string"
  getRegistryItemFileTargetPath :: "registry_file \<Rightarrow> config \<Rightarrow> string"
  transform :: "transform_opts \<Rightarrow> error + string"
  prompts :: "(prompt \<times> bool) list \<Rightarrow> prompt \<Rightarrow> bool"

text \<open>\<open>replace_first pat rep s\<close> is \<open>s.replace(pat, rep)\<close> for a string pattern: the first
  occurrence only.\<close>

fun replace_first :: "string \<Rightarrow> string \<Rightarrow> string \<Rightarrow> string" where
  "replace_first pat rep [] = (if pat = [] then rep else [])"
| "replace_first pat rep (x # xs) =
     (if startsWith (x # xs) pat then rep @ drop (length pat) (x # xs)
      else x # replace_first pat rep xs)"

text \<open>\<open>resolveTargetDir\<close>. It does not read \<open>projectInfo\<close>: the lines that did are
  commented out in the source.\<close>

definition resolveTargetDir ::
  "'fs install_env \<Rightarrow> projectInfo option \<Rightarrow> config \<Rightarrow> string \<Rightarrow> string" where
  "resolveTargetDir env projectInfo config target' =
     (if startsWith target' ''~/''
      then path_join env [cwd config, replace_first ''~/'' [] target']
      else path_join env [cwd config, target'])"

text \<open>\<open>filePath.replace(/\.ts?$/, '.js')\<close>: the pattern matches a final \<open>.ts\<close> or a final
  \<open>.t\<close>, and nothing else.\<close>

definition replace_ts :: "string \<Rightarrow> string" where
  "replace_ts filePath =
     (if endsWith filePath ''.ts'' then take (length filePath - 3) filePath @ ''.js''
      else if endsWith filePath ''.t'' then take (length filePath - 2) filePath @ ''.js''
      else filePath)"

text \<open>
  The state of the loop of \<open>updateFiles\<close>: the disk, the three lists and the map of the
  source, and three observations: the prompts shown with their answers, what became of each
  file the loop has taken (in the order of the files), and the exception that ended the run.
  \<open>No_content\<close> is the \<open>continue\<close> on a file without content. \<open>Skipped p\<close> is the
  \<open>continue\<close> after the relative path \<open>p\<close> was pushed to \<open>filesSkipped\<close>: the loop
  went on to the next file and called none of \<open>mkdir\<close>, \<open>transform\<close> and \<open>writeFile\<close>
  for this one. \<open>Written p c\<close> says that \<open>fs.writeFile(p, c)\<close> has returned, and
  \<open>Failed e\<close> that one of the three calls threw \<open>e\<close>.
\<close>

datatype outcome =
  No_content
| Skipped string
| Written string string
| Failed error

record 'fs install_state =
  disk :: 'fs
  filesCreated :: "string list"
  filesUpdated :: "string list"
  folderSkipped :: "string \<rightharpoonup> bool"
  filesSkipped :: "string list"
  asked :: "(prompt \<times> bool) list"
  outcomes :: "outcome list"
  thrown :: "error option"

definition initial_state :: "'fs \<Rightarrow> 'fs install_state" where
  "initial_state d =
     \<lparr>disk = d, filesCreated = [], filesUpdated = [], folderSkipped = Map.empty,
      filesSkipped = [], asked = [], outcomes = [], thrown = None\<rparr>"

text \<open>The destination of a file: \<open>filePath\<close> and \<open>targetDir\<close> as the loop has them when it
  tests \<open>existsSync(filePath)\<close>.\<close>

definition destination ::
  "'fs install_env \<Rightarrow> projectInfo option \<Rightarrow> config \<Rightarrow> registry_file \<Rightarrow> string \<times> string" where
  "destination env projectInfo config file =
     (let targetDir = getRegistryItemFileTargetPath env file config;
          fileName = basename env (path file);
          filePath = path_join env [targetDir, fileName];
          (filePath, targetDir) =
            (if target file \<noteq> []
             then (let fp = resolveTargetDir env projectInfo config (target file)
                   in (fp, dirname env fp))
             else (filePath, targetDir));
          filePath = (if \<not> typescript config then replace_ts filePath else filePath)
      in (filePath, targetDir))"

definition ask :: "'fs install_env \<Rightarrow> 'fs install_state \<Rightarrow> prompt \<Rightarrow> bool \<times> 'fs install_state" where
  "ask env st q =
     (let answer = prompts env (asked st) q
      in (answer, st\<lparr>asked := asked st @ [(q, answer)]\<rparr>))"

text \<open>
  The conflict policy: \<open>True\<close> when the file is skipped (the \<open>continue\<close> after a push to
  \<open>filesSkipped\<close>), with the state after the prompt, if one was shown.
\<close>

definition resolve_conflict ::
  "'fs install_env \<Rightarrow> config \<Rightarrow> options \<Rightarrow> registry_file \<Rightarrow> string \<Rightarrow> 'fs install_state
   \<Rightarrow> bool \<times> 'fs install_state" where
  "resolve_conflict env config opts file filePath st =
     (let existingFile = existsSync env (disk st) filePath;
          skip = (\<lambda>s. (True, s\<lparr>filesSkipped :=
                                   filesSkipped s @ [path_relative env (cwd config) filePath]\<rparr>))
      in if file_type file = Registry_ui
         then
           let folderName = basename env (dirname env filePath);
               existingFolder = existsSync env (disk st) (dirname env filePath);
               st1 = (if \<not> existingFolder
                      then st\<lparr>folderSkipped := (folderSkipped st)(folderName \<mapsto> False)\<rparr>
                      else st);
               st2 = (if folderSkipped st1 folderName = None
                      then (let (overwrite', s) = ask env st1 (Folder_exists folderName)
                            in s\<lparr>folderSkipped :=
                                   (folderSkipped s)(folderName \<mapsto> \<not> overwrite')\<rparr>)
                      else st1)
           in if folderSkipped st2 folderName = Some True then skip st2 else (False, st2)
         else
           if existingFile \<and> \<not> (case overwrite opts of None \<Rightarrow> False | Some b \<Rightarrow> b)
           then (let (overwrite', s) = ask env st (File_exists (basename env (path file)))
                 in if \<not> overwrite' then skip s else (False, s))
           else (False, st))"

definition ensure_dir :: "'fs install_env \<Rightarrow> 'fs \<Rightarrow> string \<Rightarrow> error + 'fs" where
  "ensure_dir env d targetDir =
     (if \<not> existsSync env d targetDir then mkdir env d targetDir else Inr d)"

definition fail :: "error \<Rightarrow> 'fs install_state \<Rightarrow> 'fs install_state" where
  "fail e st = st\<lparr>outcomes := outcomes st @ [Failed e], thrown := Some e\<rparr>"

text \<open>
  The end of the loop body, for a file that is not skipped: the directory is made when
  it is missing, the transformers run, the file is written and its path goes to
  \<open>filesUpdated\<close> or \<open>filesCreated\<close>, by the \<open>existsSync(filePath)\<close> taken before
  the conflict was resolved. An exception of one of the three calls ends the run.
\<close>

definition write_file ::
  "'fs install_env \<Rightarrow> config \<Rightarrow> string \<Rightarrow> registry_file \<Rightarrow> string \<Rightarrow> string \<Rightarrow> bool
   \<Rightarrow> 'fs install_state \<Rightarrow> 'fs install_state" where
  "write_file env config baseColor' file filePath targetDir existingFile st =
     (case ensure_dir env (disk st) targetDir of
        Inl e \<Rightarrow> fail e st
      | Inr d1 \<Rightarrow>
          (case transform env
                  \<lparr>filename = path file, raw = content file,
                   transform_config = config, transform_baseColor = baseColor'\<rparr> of
             Inl e \<Rightarrow> fail e (st\<lparr>disk := d1\<rparr>)
           | Inr content' \<Rightarrow>
               (case writeFile env d1 filePath content' of
                  Inl e \<Rightarrow> fail e (st\<lparr>disk := d1\<rparr>)
                | Inr d2 \<Rightarrow>
                    (let rel = path_relative env (cwd config) filePath;
                         st2 = st\<lparr>disk := d2,
                                  outcomes := outcomes st @ [Written filePath content']\<rparr>
                     in if existingFile
                        then st2\<lparr>filesUpdated := filesUpdated st2 @ [rel]\<rparr>
                        else st2\<lparr>filesCreated := filesCreated st2 @ [rel]\<rparr>))))"

text \<open>The body of the loop, for one file.\<close>

definition updateFile ::
  "'fs install_env \<Rightarrow> config \<Rightarrow> options \<Rightarrow> projectInfo option \<Rightarrow> string \<Rightarrow> registry_file
   \<Rightarrow> 'fs install_state \<Rightarrow> 'fs install_state" where
  "updateFile env config opts projectInfo baseColor' file st =
     (if content file = [] then st\<lparr>outcomes := outcomes st @ [No_content]\<rparr>
      else
        let (filePath, targetDir) = destination env projectInfo config file;
            existingFile = existsSync env (disk st) filePath;
            (skipped, st1) = resolve_conflict env config opts file filePath st
        in if skipped
           then st1\<lparr>outcomes :=
                      outcomes st1 @ [Skipped (path_relative env (cwd config) filePath)]\<rparr>
           else write_file env config baseColor' file filePath targetDir existingFile st1)"

fun updateFiles_loop ::
  "'fs install_env \<Rightarrow> config \<Rightarrow> options \<Rightarrow> projectInfo option \<Rightarrow> string \<Rightarrow> registry_file list
   \<Rightarrow> 'fs install_state \<Rightarrow> 'fs install_state" where
  "updateFiles_loop env config opts projectInfo baseColor' [] st = st"
| "updateFiles_loop env config opts projectInfo baseColor' (file # files') st =
     (let st' = updateFile env config opts projectInfo baseColor' file st
      in if thrown st' \<noteq> None then st'
         else updateFiles_loop env config opts projectInfo baseColor' files' st')"

text \<open>
  \<open>updateFiles\<close> on a disk \<open>d\<close>: whether it returned at once (no files), the state the loop
  ended in, and whether the spinner was told \<open>No files updated.\<close> The reports of the
  created, updated and skipped paths that follow take nothing back and are left out.
\<close>

record 'fs report =
  returned_early :: bool
  final :: "'fs install_state"
  info_no_files_updated :: bool

definition updateFiles ::
  "'fs install_env \<Rightarrow> registry_file list \<Rightarrow> config \<Rightarrow> options \<Rightarrow> 'fs \<Rightarrow> 'fs report" where
  "updateFiles env files' config opts d =
     (if length files' = 0
      then \<lparr>returned_early = True, final = initial_state d, info_no_files_updated = False\<rparr>
      else
        (case getProjectInfo env (cwd config) of
           Inl e \<Rightarrow>
             \<lparr>returned_early = False, final = (initial_state d)\<lparr>thrown := Some e\<rparr>,
              info_no_files_updated = False\<rparr>
         | Inr projectInfo \<Rightarrow>
             (case getRegistryBaseColor env (baseColor config) of
                Inl e \<Rightarrow>
                  \<lparr>returned_early = False, final = (initial_state d)\<lparr>thrown := Some e\<rparr>,
                   info_no_files_updated = False\<rparr>
              | Inr baseColor' \<Rightarrow>
                  (let st = updateFiles_loop env config opts projectInfo baseColor' files'
                              (initial_state d);
                       hasUpdatedFiles =
                         (length (filesCreated st) \<noteq> 0 \<or> length (filesUpdated st) \<noteq> 0)
                   in \<lparr>returned_early = False, final = st,
                       info_no_files_updated =
                         (thrown st = None \<and> \<not> hasUpdatedFiles
                          \<and> length (filesSkipped st) = 0)\<rparr>))))"

section \<open>A concrete world for the examples\<close>

text \<open>
  The theorems hold for every path library, file system, parser and user. The examples
  need one of each. The path functions below read POSIX paths the way the path library
  does, for paths without backslashes, drive letters and a slash at the end, other than
  the root: \<open>posix_join\<close> joins the segments that are not empty and normalises the
  result, \<open>posix_relative\<close> is for two absolute normalised paths. A disk is the list of
  the paths that exist.
\<close>

fun join_segments :: "string list \<Rightarrow> string" where
  "join_segments [] = []"
| "join_segments [s] = s"
| "join_segments (s # t # ss) = s @ ''/'' @ join_segments (t # ss)"

fun normalize_segments :: "bool \<Rightarrow> string list \<Rightarrow> string list \<Rightarrow> string list" where
  "normalize_segments allowAboveRoot res [] = rev res"
| "normalize_segments allowAboveRoot res (s # ss) =
     (if s = [] \<or> s = ''.'' then normalize_segments allowAboveRoot res ss
      else if s = ''..''
      then (case res of
              [] \<Rightarrow> normalize_segments allowAboveRoot
                      (if allowAboveRoot then [''..''] else []) ss
            | r # rs \<Rightarrow>
                if r = ''..'' then normalize_segments allowAboveRoot (''..'' # r # rs) ss
                else normalize_segments allowAboveRoot rs ss)
      else normalize_segments allowAboveRoot (s # res) ss)"

definition posix_normalize :: "string \<Rightarrow> string" where
  "posix_normalize p =
     (if p = [] then ''.''
      else
        let isAbsolute = startsWith p ''/'';
            trailingSeparator = endsWith p ''/'';
            s = join_segments (normalize_segments (\<not> isAbsolute) [] (split_on CHR ''/'' p))
        in if s = [] then (if isAbsolute then ''/'' else if trailingSeparator then ''./'' else ''.'')
           else (if isAbsolute then ''/'' else []) @ s @ (if trailingSeparator then ''/'' else []))"

definition posix_join :: "string list \<Rightarrow> string" where
  "posix_join segments =
     (let joined = join_segments (filter (\<lambda>s. s \<noteq> []) segments)
      in if joined = [] then ''.'' else posix_normalize joined)"

definition posix_basename :: "string \<Rightarrow> string" where
  "posix_basename p = last (split_on CHR ''/'' p)"

definition posix_dirname :: "string \<Rightarrow> string" where
  "posix_dirname p =
     (let q = (if endsWith p ''/'' then butlast p else p);
          s = join_segments (butlast (split_on CHR ''/'' q))
      in if s = [] then (if startsWith p ''/'' then ''/'' else ''.'') else s)"

fun drop_common :: "string list \<Rightarrow> string list \<Rightarrow> string list \<times> string list" where
  "drop_common (a # as) (b # bs) = (if a = b then drop_common as bs else (a # as, b # bs))"
| "drop_common as bs = (as, bs)"

definition posix_relative :: "string \<Rightarrow> string \<Rightarrow> string" where
  "posix_relative from to =
     (let (f, t) = drop_common (split_on CHR ''/'' from) (split_on CHR ''/'' to)
      in join_segments (map (\<lambda>_. ''..'') f @ t))"

fun path_prefixes :: "string \<Rightarrow> string list \<Rightarrow> string list" where
  "path_prefixes pre [] = []"
| "path_prefixes pre (s # ss) = (pre @ ''/'' @ s) # path_prefixes (pre @ ''/'' @ s) ss"

text \<open>
  The example installer world: a disk on which \<open>mkdir\<close> makes the directory with all
  its parents and \<open>writeFile\<close> needs the directory of the file, a project whose
  components go to \<open>components/ui\<close> under the project root, the identity as the
  transformer, and a user who answers a prompt by what it asks.
\<close>

definition example_install_env :: "(prompt \<Rightarrow> bool) \<Rightarrow> string list install_env" where
  "example_install_env user =
     \<lparr>path_join = posix_join,
      basename = posix_basename,
      dirname = posix_dirname,
      path_relative = posix_relative,
      existsSync = (\<lambda>d p. p \<in> set d),
      mkdir = (\<lambda>d p. Inr (path_prefixes [] (filter (\<lambda>s. s \<noteq> []) (split_on CHR ''/'' p)) @ d)),
      writeFile = (\<lambda>d p c. if posix_dirname p \<in> set d then Inr (p # d)
                            else Inl (FsError ''ENOENT'')),
      getProjectInfo = (\<lambda>c. Inr (Some \<lparr>isSrcDir = True\<rparr>)),
      getRegistryBaseColor = (\<lambda>c. Inr c),
      getRegistryItemFileTargetPath = (\<lambda>file config. posix_join [cwd config, ''components/ui'']),
      transform = (\<lambda>opts. Inr (raw opts)),
      prompts = (\<lambda>history q. user q)\<rparr>"

definition example_config :: config where
  "example_config = \<lparr>cwd = ''/proj'', typescript = True, baseColor = ''zinc''\<rparr>"

definition no_options :: options where
  "no_options = \<lparr>overwrite = None, force = None, silent = None\<rparr>"

definition ui_file :: "string \<Rightarrow> string \<Rightarrow> string \<Rightarrow> registry_file" where
  "ui_file p t c = \<lparr>file_name = None, content = c, path = p, target = t, file_type = Registry_ui\<rparr>"

definition page_file :: "string \<Rightarrow> string \<Rightarrow> string \<Rightarrow> registry_file" where
  "page_file p t c = \<lparr>file_name = None, content = c, path = p, target = t, file_type = Registry_page\<rparr>"

text \<open>
  The example build world: a ui root with one component directory \<open>button\<close> that holds two
  files and a nested directory \<open>parts\<close>, a block root with a page file and a directory
  \<open>placeholder\<close> that holds nothing but an empty \<open>components\<close> directory, and the parse
  results of the files used. The page file has a plain script block, with its exports, and
  a setup script block; \<open>legacy_vue\<close> is a component with a plain script block only, for
  which the compiler returns no \<open>imports\<close>; \<open>setup_vue\<close> has a setup script block only.
\<close>

definition button_script :: string where
  "button_script = ''import { useVModel } from '@vueuse/core'; import { cn } from '@/lib/utils';''"

definition button_vue :: string where
  "button_vue = ''<script setup>'' @ button_script @ ''</script><template><button /></template>''"

definition index_ts :: string where
  "index_ts = ''export { default as Button } from './Button.vue';''"

definition calendar_ts :: string where
  "calendar_ts =
     ''import { DatePicker } from 'v-calendar'; import { useForm } from 'vee-validate';''"

definition page_script :: string where
  "page_script =
     ''export const description = 'A dashboard'; export const iframeHeight = height(); export const containerClass = null; export const foo = 'bar'; export const { theme } = settings;''"

definition page_setup_script :: string where
  "page_setup_script = ''import { Card } from '@/components/ui/card';''"

definition page_vue :: string where
  "page_vue =
     ''<script>'' @ page_script @ ''</script><script setup>'' @ page_setup_script
       @ ''</script><template><Card /></template>''"

definition legacy_script :: string where
  "legacy_script = ''import { DatePicker } from 'v-calendar'; register(DatePicker);''"

definition legacy_vue :: string where
  "legacy_vue = ''<script>'' @ legacy_script @ ''</script><template><DatePicker /></template>''"

definition setup_script :: string where
  "setup_script = ''export const description = 'A dashboard';''"

definition setup_vue :: string where
  "setup_vue = ''<script setup>'' @ setup_script @ ''</script><template><main /></template>''"

definition legacy_ast :: "node list" where
  "legacy_ast =
     [OtherNode [OtherNode [OtherNode [], OtherNode []], OtherNode []],
      OtherNode [OtherNode [OtherNode [], OtherNode []]]]"

definition page_ast :: "node list" where
  "page_ast =
     [ExportNamedDeclaration (Some (VariableDeclaration
        [VariableDeclarator (Identifier ''description'') (Some (StringLiteral ''A dashboard''))])),
      ExportNamedDeclaration (Some (VariableDeclaration
        [VariableDeclarator (Identifier ''iframeHeight'') (Some OtherExpression)])),
      ExportNamedDeclaration (Some (VariableDeclaration
        [VariableDeclarator (Identifier ''containerClass'') (Some NullLiteral)])),
      ExportNamedDeclaration (Some (VariableDeclaration
        [VariableDeclarator (Identifier ''foo'') (Some (StringLiteral ''bar''))])),
      ExportNamedDeclaration (Some (VariableDeclaration
        [VariableDeclarator OtherPattern (Some OtherExpression)]))]"

definition example_build_env :: build_env where
  "example_build_env =
     \<lparr>readdir = (\<lambda>p recursive.
        if p = ''/registry/ui'' \<and> recursive
        then Inr [\<lparr>dirent_name = ''button'', dirent_kind = Dirent_directory\<rparr>,
                  \<lparr>dirent_name = ''Button.vue'', dirent_kind = Dirent_file\<rparr>,
                  \<lparr>dirent_name = ''index.ts'', dirent_kind = Dirent_file\<rparr>,
                  \<lparr>dirent_name = ''parts'', dirent_kind = Dirent_directory\<rparr>]
        else if p = ''/registry/ui/button'' \<and> \<not> recursive
        then Inr [\<lparr>dirent_name = ''Button.vue'', dirent_kind = Dirent_file\<rparr>,
                  \<lparr>dirent_name = ''index.ts'', dirent_kind = Dirent_file\<rparr>,
                  \<lparr>dirent_name = ''parts'', dirent_kind = Dirent_directory\<rparr>]
        else if p = ''/registry/block'' \<and> \<not> recursive
        then Inr [\<lparr>dirent_name = ''placeholder'', dirent_kind = Dirent_directory\<rparr>,
                  \<lparr>dirent_name = ''Dashboard.vue'', dirent_kind = Dirent_file\<rparr>]
        else if p = ''/registry/block/placeholder'' \<and> recursive
        then Inr [\<lparr>dirent_name = ''components'', dirent_kind = Dirent_directory\<rparr>]
        else Inl (FsError ''ENOENT'')),
      readFile = (\<lambda>p.
        if p = ''/registry/ui/button/Button.vue'' then Inr button_vue
        else if p = ''/registry/ui/button/index.ts'' then Inr index_ts
        else if p = ''/registry/block/Dashboard.vue'' then Inr page_vue
        else Inl (FsError ''ENOENT'')),
      resolve = posix_join,
      join = posix_join,
      parseSync = (\<lambda>sourceCode filename'.
        if sourceCode = calendar_ts
        then Inr [ImportDeclaration ''v-calendar'', ImportDeclaration ''vee-validate'']
        else Inr [OtherStatement]),
      parse = (\<lambda>sourceCode filename'.
        if sourceCode = button_vue then Inr \<lparr>script = None, scriptSetup = Some button_script\<rparr>
        else if sourceCode = page_vue
        then Inr \<lparr>script = Some page_script, scriptSetup = Some page_setup_script\<rparr>
        else if sourceCode = legacy_vue then Inr \<lparr>script = Some legacy_script, scriptSetup = None\<rparr>
        else if sourceCode = setup_vue then Inr \<lparr>script = None, scriptSetup = Some setup_script\<rparr>
        else Inr \<lparr>script = None, scriptSetup = None\<rparr>),
      compileScript = (\<lambda>d.
        if script d = None \<and> scriptSetup d = Some button_script
        then Inr \<lparr>compiled_imports =
                    Some [(''useVModel'', ''@vueuse/core''), (''cn'', ''@/lib/utils'')],
                  scriptAst = []\<rparr>
        else if script d = Some page_script \<and> scriptSetup d = Some page_setup_script
        then Inr \<lparr>compiled_imports = Some [(''Card'', ''@/components/ui/card'')],
                  scriptAst = page_ast\<rparr>
        else if script d = Some legacy_script \<and> scriptSetup d = None
        then Inr \<lparr>compiled_imports = None, scriptAst = legacy_ast\<rparr>
        else Inl (ParseFailure ''compileScript''))\<rparr>"



definition decline_all :: "prompt \<Rightarrow> bool" where
  "decline_all q = False"






definition dashboard_file :: registry_file where
  "dashboard_file = page_file ''block/Dashboard.vue'' ''pages/dashboard/index.vue'' ''<template />''"

definition dashboard_disk :: "string list" where
  "dashboard_disk =
     [''/proj'', ''/proj/pages'', ''/proj/pages/dashboard'', ''/proj/pages/dashboard/index.vue'']"

definition empty_dashboard_file :: registry_file where
  "empty_dashboard_file = page_file ''block/Dashboard.vue'' ''pages/dashboard/index.vue'' []"

definition overwrite_options :: options where
  "overwrite_options = \<lparr>overwrite = Some True, force = None, silent = None\<rparr>"

section \<open>Notions used by the theorems\<close>

text \<open>What one specifier adds to the external dependencies: nothing when it is not in
  the table, else the tagged specifier or its own name, and its peers.\<close>

definition external_of :: "string \<Rightarrow> string list" where
  "external_of s =
     (case map_of DEPENDENCIES s of
        None \<Rightarrow> []
      | Some peers \<Rightarrow>
          (case map_of DEPENDENCIES_WITH_TAGS s of Some t \<Rightarrow> t | None \<Rightarrow> s) # peers)"

text \<open>
  What the metadata walk assigns, in the order it assigns it: one property key and value
  for each declarator of each exported variable declaration, at any depth of the tree. The
  key of a declarator is the name it declares, and the string \<open>undefined\<close> when it
  declares a destructuring pattern; its value is \<open>null\<close> when it has no initializer, the
  value of a string, numeric, boolean or bigint literal, and \<open>undefined\<close> for every
  other initializer.
\<close>

fun declarator_assignment :: "declarator \<Rightarrow> string \<times> jsvalue" where
  "declarator_assignment (VariableDeclarator i init) =
     (id_name i, case init of Some e \<Rightarrow> expression_value e | None \<Rightarrow> JSNull)"

fun exported_assignments :: "node \<Rightarrow> (string \<times> jsvalue) list" where
  "exported_assignments (ExportNamedDeclaration None) = []"
| "exported_assignments (ExportNamedDeclaration (Some d)) =
     (case d of VariableDeclaration ds \<Rightarrow> map declarator_assignment ds | _ \<Rightarrow> [])
     @ exported_assignments d"
| "exported_assignments (VariableDeclaration ds) = []"
| "exported_assignments (OtherNode cs) = concat (map exported_assignments cs)"

definition assign_all :: "metadata \<Rightarrow> (string \<times> jsvalue) list \<Rightarrow> metadata" where
  "assign_all m as = foldl (\<lambda>m' (k, v). obj_assign m' k v) m as"

definition put_all :: "(string \<times> jsvalue) list \<Rightarrow> (string \<times> jsvalue) list \<Rightarrow> (string \<times> jsvalue) list" where
  "put_all ps as = foldl (\<lambda>ps' (k, v). put_own ps' k v) ps as"

text \<open>
  The folder of a file: the directory of its destination, and the name of that directory,
  which is what the folder prompt asks about and what the map \<open>folderSkipped\<close> is keyed
  by. The destination does not depend on the project information.
\<close>

definition filePath_of :: "'fs install_env \<Rightarrow> config \<Rightarrow> registry_file \<Rightarrow> string" where
  "filePath_of env config file = fst (destination env None config file)"

definition folder_of :: "'fs install_env \<Rightarrow> config \<Rightarrow> registry_file \<Rightarrow> string" where
  "folder_of env config file = dirname env (filePath_of env config file)"

definition folderName_of :: "'fs install_env \<Rightarrow> config \<Rightarrow> registry_file \<Rightarrow> string" where
  "folderName_of env config file = basename env (folder_of env config file)"

definition skipped_path :: "'fs install_env \<Rightarrow> config \<Rightarrow> registry_file \<Rightarrow> string" where
  "skipped_path env config file = path_relative env (cwd config) (filePath_of env config file)"

definition ui_with_content :: "registry_file \<Rightarrow> bool" where
  "ui_with_content file = (file_type file = Registry_ui \<and> content file \<noteq> [])"

text \<open>
  The state in which the loop takes the file at position \<open>i\<close>, when no call threw before:
  the one the files before it left. And the state the loop body leaves for that file.
\<close>

definition state_before ::
  "'fs install_env \<Rightarrow> config \<Rightarrow> options \<Rightarrow> projectInfo option \<Rightarrow> string \<Rightarrow> registry_file list
   \<Rightarrow> 'fs \<Rightarrow> nat \<Rightarrow> 'fs install_state" where
  "state_before env config opts pinfo bc fs d i =
     updateFiles_loop env config opts pinfo bc (take i fs) (initial_state d)"

definition state_after ::
  "'fs install_env \<Rightarrow> config \<Rightarrow> options \<Rightarrow> projectInfo option \<Rightarrow> string \<Rightarrow> registry_file list
   \<Rightarrow> 'fs \<Rightarrow> nat \<Rightarrow> 'fs install_state" where
  "state_after env config opts pinfo bc fs d i =
     updateFile env config opts pinfo bc (fs ! i) (state_before env config opts pinfo bc fs d i)"

text \<open>The folder names asked about, in the order of the prompts.\<close>

fun folder_prompts :: "(prompt \<times> bool) list \<Rightarrow> string list" where
  "folder_prompts [] = []"
| "folder_prompts ((Folder_exists n, a) # qs) = n # folder_prompts qs"
| "folder_prompts ((File_exists n, a) # qs) = folder_prompts qs"

text \<open>A file that was not skipped was written, or one of the calls on the way threw.\<close>

fun written_or_failed :: "string \<Rightarrow> outcome \<Rightarrow> bool" where
  "written_or_failed p (Written q c) = (q = p)"
| "written_or_failed p (Failed e) = True"
| "written_or_failed p other = False"





section \<open>The classifier\<close>

lemma split_on_not_Nil: "split_on c s \<noteq> []"
  by (induction s) (auto split: list.splits)

lemma split_on_append:
  "split_on c (pre @ c # rest) = split_on c pre @ split_on c rest"
proof (induction pre)
  case Nil
  show ?case by simp
next
  case (Cons x pre)
  obtain s0 ss where "split_on c pre = s0 # ss"
    using split_on_not_Nil[of c pre] by (cases "split_on c pre") auto
  with Cons show ?case by simp
qed

lemma split_on_none: "c \<notin> set seg \<Longrightarrow> split_on c seg = [seg]"
  by (induction seg) (auto split: list.splits)

lemma last_split_on:
  "c \<notin> set seg \<Longrightarrow> last (split_on c (pre @ c # seg)) = seg"
  by (simp add: split_on_append split_on_none)

lemma set_foldl_set_add: "set (foldl set_add s xs) = set s \<union> set xs"
  by (induction xs arbitrary: s) (auto simp: set_add_def)

lemma dependencies_populateDeps:
  "set (dependencies_set (populateDeps st s)) = set (dependencies_set st) \<union> set (external_of s)"
  by (auto simp: populateDeps_def external_of_def Let_def set_foldl_set_add set_add_def
      split: option.splits)

lemma dependencies_foldl_populateDeps:
  "set (dependencies_set (foldl populateDeps st srcs)) =
     set (dependencies_set st) \<union> (\<Union>s\<in>set srcs. set (external_of s))"
  by (induction srcs arbitrary: st) (auto simp: dependencies_populateDeps)

lemma tagged_name_never_added:
  "map_of DEPENDENCIES_WITH_TAGS s = Some t \<Longrightarrow> s \<notin> set (external_of k)"
  by (auto simp: external_of_def DEPENDENCIES_def DEPENDENCIES_WITH_TAGS_def split: if_splits)

lemma table_key_not_alias:
  "map_of DEPENDENCIES s = Some peers \<Longrightarrow> \<not> startsWith s REGISTRY_DEPENDENCY"
  by (auto simp: DEPENDENCIES_def startsWith_def REGISTRY_DEPENDENCY_def split: if_splits)

text \<open>
  What the extraction returns for a file whose import specifiers it gets hold of: a \<open>.ts\<close>
  file that parses, or a component with a script block whose compiled block has the
  property \<open>imports\<close>. For each specifier that is a key of the dependency table, the
  dependency set returned holds the override specifier when the package has one, and then
  not the bare name, holds the bare name otherwise, and holds every peer of the package
  under its own name.
\<close>

lemma getFileDependencies_external:
  assumes "(endsWith filename' ''.ts'' \<and> parseSync env sourceCode filename' = Inr body
              \<and> ImportDeclaration s \<in> set body)
           \<or> (\<not> endsWith filename' ''.ts'' \<and> parse env sourceCode filename' = Inr d
                \<and> (truthy_content (script d) \<or> truthy_content (scriptSetup d))
                \<and> compileScript env d = Inr c \<and> compiled_imports c = Some vals
                \<and> s \<in> snd ` set vals)"
    and "map_of DEPENDENCIES s = Some peers"
  shows "\<exists>found. getFileDependencies env filename' sourceCode = Inr found
           \<and> (case map_of DEPENDENCIES_WITH_TAGS s of
                 Some tagged \<Rightarrow> tagged \<in> set (dependencies_set found)
                                 \<and> s \<notin> set (dependencies_set found)
               | None \<Rightarrow> s \<in> set (dependencies_set found))
           \<and> set peers \<subseteq> set (dependencies_set found)"
proof -
  have "\<exists>sources. getFileDependencies env filename' sourceCode
            = Inr (foldl populateDeps no_deps sources) \<and> s \<in> set sources"
  proof (rule disjE[OF assms(1)])
    assume a: "endsWith filename' ''.ts'' \<and> parseSync env sourceCode filename' = Inr body
              \<and> ImportDeclaration s \<in> set body"
    then have ts: "endsWith filename' ''.ts''" and p: "parseSync env sourceCode filename' = Inr body"
      and i: "ImportDeclaration s \<in> set body"
      by simp_all
    let ?sources = "List.map_filter
        (\<lambda>i. case i of ImportDeclaration src \<Rightarrow> Some src | OtherStatement \<Rightarrow> None) body"
    have "getFileDependencies env filename' sourceCode = Inr (foldl populateDeps no_deps ?sources)"
      using ts p by (simp add: getFileDependencies_def)
    moreover have "s \<in> set ?sources"
      using i by (force simp: List.map_filter_def)
    ultimately show ?thesis by blast
  next
    assume a: "\<not> endsWith filename' ''.ts'' \<and> parse env sourceCode filename' = Inr d
                \<and> (truthy_content (script d) \<or> truthy_content (scriptSetup d))
                \<and> compileScript env d = Inr c \<and> compiled_imports c = Some vals
                \<and> s \<in> snd ` set vals"
    then have vue: "\<not> endsWith filename' ''.ts''" and p: "parse env sourceCode filename' = Inr d"
      and t: "truthy_content (script d) \<or> truthy_content (scriptSetup d)"
      and c: "compileScript env d = Inr c" and v: "compiled_imports c = Some vals"
      and i: "s \<in> snd ` set vals"
      by simp_all
    have "getFileDependencies env filename' sourceCode
        = Inr (foldl populateDeps no_deps (map snd vals))"
      using vue p t c v by (simp add: getFileDependencies_def)
    moreover have "s \<in> set (map snd vals)"
      using i by simp
    ultimately show ?thesis by blast
  qed
  then obtain sources where
    run: "getFileDependencies env filename' sourceCode = Inr (foldl populateDeps no_deps sources)"
    and mem: "s \<in> set sources"
    by blast
  let ?found = "foldl populateDeps no_deps sources"
  have all: "set (dependencies_set ?found) = (\<Union>k\<in>set sources. set (external_of k))"
    by (simp add: dependencies_foldl_populateDeps no_deps_def)
  have mine: "set (external_of s) \<subseteq> set (dependencies_set ?found)"
    using mem all by blast
  have peers: "set peers \<subseteq> set (dependencies_set ?found)"
    using mine assms(2) by (auto simp: external_of_def)
  have name: "(case map_of DEPENDENCIES_WITH_TAGS s of
                 Some tagged \<Rightarrow> tagged \<in> set (dependencies_set ?found)
                                 \<and> s \<notin> set (dependencies_set ?found)
               | None \<Rightarrow> s \<in> set (dependencies_set ?found))"
  proof (cases "map_of DEPENDENCIES_WITH_TAGS s")
    case None
    then show ?thesis using mine assms(2) by (auto simp: external_of_def)
  next
    case (Some t)
    have "t \<in> set (dependencies_set ?found)"
      using mine assms(2) Some by (auto simp: external_of_def)
    moreover have "s \<notin> set (dependencies_set ?found)"
      using tagged_name_never_added[OF Some] all by blast
    ultimately show ?thesis using Some by simp
  qed
  show ?thesis using run name peers by blast
qed

text \<open>
  A component with a plain script block only: the guard of \<open>getFileDependencies\<close> lets it
  through, its compiled block has no \<open>imports\<close>, and \<open>Object.values\<close> throws. No set is
  returned, whatever the file imports.
\<close>

lemma getFileDependencies_imports_undefined:
  assumes "\<not> endsWith filename' ''.ts''"
    and "parse env sourceCode filename' = Inr d"
    and "truthy_content (script d) \<or> truthy_content (scriptSetup d)"
    and "compileScript env d = Inr c"
    and "compiled_imports c = None"
  shows "getFileDependencies env filename' sourceCode
           = Inl (TypeError ''Cannot convert undefined or null to object'')"
  using assms by (simp add: getFileDependencies_def)

text \<open>
  Claim C2 holds for the files of the lemma \<open>getFileDependencies_external\<close> and is not
  what the extraction does on a component with a plain script block only. The file
  \<open>legacy_vue\<close> imports \<open>v-calendar\<close>, a key of the table with an override, in its
  plain script block, and has no setup script block. The claim has \<open>v-calendar@next\<close> in
  the resulting dependency set; the extraction ends with the \<open>TypeError\<close> and there is no
  set. The same import in a \<open>.ts\<close> file gives the set of the claim.
\<close>

theorem getFileDependencies_plain_script_throws:
  "parse example_build_env legacy_vue ''/registry/block/Legacy.vue''
     = Inr \<lparr>script = Some legacy_script, scriptSetup = None\<rparr>
   \<and> compileScript example_build_env \<lparr>script = Some legacy_script, scriptSetup = None\<rparr>
       = Inr \<lparr>compiled_imports = None, scriptAst = legacy_ast\<rparr>
   \<and> map_of DEPENDENCIES ''v-calendar'' = Some []
   \<and> map_of DEPENDENCIES_WITH_TAGS ''v-calendar'' = Some ''v-calendar@next''
   \<and> getFileDependencies example_build_env ''/registry/block/Legacy.vue'' legacy_vue
       = Inl (TypeError ''Cannot convert undefined or null to object'')
   \<and> getFileDependencies example_build_env ''/registry/lib/calendar.ts'' calendar_ts
       = Inr \<lparr>registryDependencies_set = [],
              dependencies_set = [''v-calendar@next'', ''vee-validate'', ''@vee-validate/zod'', ''zod'']\<rparr>"
  by code_simp

text \<open>
  Claim C7. A specifier that begins with \<open>@/\<close> adds its final path segment, the part
  after its last slash however many slashes it has, to the registry dependencies and
  nothing to the external ones; a specifier without the prefix that is not in the table
  changes neither set.
\<close>

theorem populateDeps_registry_dependency:
  "(startsWith s REGISTRY_DEPENDENCY \<longrightarrow>
      (\<exists>pre seg. s = pre @ CHR ''/'' # seg \<and> CHR ''/'' \<notin> set seg
         \<and> populateDeps st s =
             st\<lparr>registryDependencies_set := set_add (registryDependencies_set st) seg\<rparr>))
   \<and> (\<not> startsWith s REGISTRY_DEPENDENCY \<and> map_of DEPENDENCIES s = None \<longrightarrow>
        populateDeps st s = st)"
proof (intro conjI impI)
  assume pre_alias: "startsWith s REGISTRY_DEPENDENCY"
  have "CHR ''/'' \<in> set (take (length REGISTRY_DEPENDENCY) s)"
    using pre_alias unfolding startsWith_def by (simp add: REGISTRY_DEPENDENCY_def)
  then have "CHR ''/'' \<in> set s"
    by (rule in_set_takeD)
  then obtain pre seg where s: "s = pre @ CHR ''/'' # seg" and seg: "CHR ''/'' \<notin> set seg"
    by (metis split_list_last)
  have none: "map_of DEPENDENCIES s = None"
    using table_key_not_alias[of s] pre_alias by (cases "map_of DEPENDENCIES s") auto
  have "at_last (split_on CHR ''/'' s) = Some seg"
    using last_split_on[OF seg, of pre] s by (simp add: at_last_def split_on_not_Nil)
  then have "populateDeps st s =
      st\<lparr>registryDependencies_set := set_add (registryDependencies_set st) seg\<rparr>"
    using pre_alias none by (simp add: populateDeps_def)
  with s seg show "\<exists>pre seg. s = pre @ CHR ''/'' # seg \<and> CHR ''/'' \<notin> set seg
         \<and> populateDeps st s =
             st\<lparr>registryDependencies_set := set_add (registryDependencies_set st) seg\<rparr>"
    by blast
next
  assume "\<not> startsWith s REGISTRY_DEPENDENCY \<and> map_of DEPENDENCIES s = None"
  then show "populateDeps st s = st"
    by (simp add: populateDeps_def)
qed

theorem populateDeps_registry_dependency_witness:
  "startsWith ''@/components/ui/bar'' REGISTRY_DEPENDENCY
   \<and> populateDeps no_deps ''@/components/ui/bar''
       = \<lparr>registryDependencies_set = [''bar''], dependencies_set = []\<rparr>
   \<and> \<not> startsWith ''vue'' REGISTRY_DEPENDENCY \<and> map_of DEPENDENCIES ''vue'' = None
   \<and> populateDeps no_deps ''vue'' = no_deps"
proof -
  have h1: "startsWith ''@/components/ui/bar'' REGISTRY_DEPENDENCY"
    by (simp add: startsWith_def REGISTRY_DEPENDENCY_def)
  have h2: "\<not> startsWith ''vue'' REGISTRY_DEPENDENCY \<and> map_of DEPENDENCIES ''vue'' = None"
    by (simp add: startsWith_def REGISTRY_DEPENDENCY_def DEPENDENCIES_def)
  from populateDeps_registry_dependency[of "''@/components/ui/bar''" no_deps] h1
  obtain pre seg where s: "''@/components/ui/bar'' = pre @ CHR ''/'' # seg"
    and seg: "CHR ''/'' \<notin> set seg"
    and run: "populateDeps no_deps ''@/components/ui/bar'' =
                no_deps\<lparr>registryDependencies_set := set_add (registryDependencies_set no_deps) seg\<rparr>"
    by blast
  have "last (split_on CHR ''/'' (pre @ CHR ''/'' # seg)) = seg"
    by (rule last_split_on[OF seg])
  then have "seg = ''bar''"
    unfolding s[symmetric] by simp
  then have r1: "populateDeps no_deps ''@/components/ui/bar''
       = \<lparr>registryDependencies_set = [''bar''], dependencies_set = []\<rparr>"
    using run by (simp add: no_deps_def set_add_def)
  have r2: "populateDeps no_deps ''vue'' = no_deps"
    using populateDeps_registry_dependency[of "''vue''" no_deps] h2 by blast
  show ?thesis using h1 h2 r1 r2 by blast
qed

section \<open>Block metadata\<close>

lemma map_of_put_own: "map_of (put_own ps k v) = (map_of ps)(k \<mapsto> v)"
  by (induction ps k v rule: put_own.induct) auto

lemma keys_put_own: "fst ` set (put_own ps k v) = insert k (fst ` set ps)"
  by (induction ps k v rule: put_own.induct) auto

lemma distinct_put_own: "distinct (map fst ps) \<Longrightarrow> distinct (map fst (put_own ps k v))"
  by (induction ps k v rule: put_own.induct) (auto simp: keys_put_own)

lemma put_all_Nil [simp]: "put_all ps [] = ps"
  by (simp add: put_all_def)

lemma put_all_Cons [simp]: "put_all ps ((k, v) # as) = put_all (put_own ps k v) as"
  by (simp add: put_all_def)

lemma map_of_put_all:
  "map_of (put_all ps as) k =
     (case map_of (rev as) k of Some v \<Rightarrow> Some v | None \<Rightarrow> map_of ps k)"
proof (induction as arbitrary: ps)
  case Nil
  show ?case by simp
next
  case (Cons a as)
  obtain k' v' where a: "a = (k', v')" by (cases a)
  show ?case
    by (simp add: a Cons map_of_put_own map_add_def split: option.splits)
qed

lemma keys_put_all: "fst ` set (put_all ps as) = fst ` set ps \<union> fst ` set as"
proof (induction as arbitrary: ps)
  case Nil
  show ?case by simp
next
  case (Cons a as)
  obtain k v where a: "a = (k, v)" by (cases a)
  show ?case by (simp add: a Cons keys_put_own)
qed

lemma distinct_put_all: "distinct (map fst ps) \<Longrightarrow> distinct (map fst (put_all ps as))"
proof (induction as arbitrary: ps)
  case Nil
  then show ?case by simp
next
  case (Cons a as)
  obtain k v where a: "a = (k, v)" by (cases a)
  show ?case using Cons by (simp add: a distinct_put_own)
qed

lemma assign_all_Nil [simp]: "assign_all m [] = m"
  by (simp add: assign_all_def)

lemma assign_all_Cons [simp]: "assign_all m ((k, v) # as) = assign_all (obj_assign m k v) as"
  by (simp add: assign_all_def)

lemma assign_all_append: "assign_all m (as @ bs) = assign_all (assign_all m as) bs"
  by (simp add: assign_all_def)

text \<open>Without the key \<open>__proto__\<close> every assignment puts an own property, and the
  prototype stays.\<close>

lemma assign_all_put_all:
  "''__proto__'' \<notin> fst ` set as \<Longrightarrow>
   assign_all m as = m\<lparr>own_properties := put_all (own_properties m) as\<rparr>"
proof (induction as arbitrary: m)
  case Nil
  show ?case by simp
next
  case (Cons a as)
  obtain k v where a: "a = (k, v)" by (cases a)
  have k: "k \<noteq> ''__proto__''" and rest: "''__proto__'' \<notin> fst ` set as"
    using Cons.prems by (auto simp: a)
  have "obj_assign m k v = m\<lparr>own_properties := put_own (own_properties m) k v\<rparr>"
    using k by (simp add: obj_assign_def)
  then show ?case
    by (simp add: a Cons.IH[OF rest])
qed

text \<open>The key \<open>__proto__\<close>, assigned to an object that inherits from \<open>Object.prototype\<close>
  and has no property of that name, adds no property.\<close>

lemma obj_assign_proto:
  "proto m = Object_prototype \<Longrightarrow> map_of (own_properties m) ''__proto__'' = None \<Longrightarrow>
   own_properties (obj_assign m ''__proto__'' v) = own_properties m
   \<and> proto (obj_assign m ''__proto__'' v)
       = (if v = JSNull then Null_prototype else Object_prototype)"
  by (simp add: obj_assign_def)

lemma foldl_assign_declarator:
  "foldl assign_declarator m ds = assign_all m (map declarator_assignment ds)"
proof (induction ds arbitrary: m)
  case Nil
  show ?case by simp
next
  case (Cons d ds)
  then show ?case by (cases d) simp
qed

text \<open>The walk is the sequence of its assignments.\<close>

lemma walk_assign_all: "walk m n = assign_all m (exported_assignments n)"
proof (induction m n rule: walk.induct)
  case (1 m)
  show ?case by simp
next
  case (2 m d)
  show ?case
    using "2.IH" by (cases d) (simp_all add: assign_all_append foldl_assign_declarator)
next
  case (3 m ds)
  show ?case by simp
next
  case (4 m cs)
  have "\<And>m'. (\<And>c m''. c \<in> set cs \<Longrightarrow> walk m'' c = assign_all m'' (exported_assignments c))
      \<Longrightarrow> foldl walk m' cs = assign_all m' (concat (map exported_assignments cs))"
  proof (induction cs)
    case Nil
    show ?case by simp
  next
    case (Cons c cs)
    then show ?case by (simp add: assign_all_append)
  qed
  then show ?case using "4.IH" by simp
qed

lemma foldl_walk_assign_all:
  "foldl walk m ns = assign_all m (concat (map exported_assignments ns))"
  by (induction ns arbitrary: m) (simp_all add: walk_assign_all assign_all_append)

text \<open>
  Claim C5, as the code has it. For a \<open>.vue\<close> file with a plain script block that
  compiles and exports no variable named \<open>__proto__\<close>, the result has the properties
  \<open>description\<close>, \<open>iframeHeight\<close> and \<open>containerClass\<close> and one more property for
  every other key that a declarator of an exported variable declaration assigns: no name
  is ignored. The key of a declarator is the name it declares, and the string
  \<open>undefined\<close> when it declares a destructuring pattern. Each property is held once. Its
  value is the one the last exported declarator of that key assigns: \<open>null\<close> without an
  initializer, the value of a string, numeric, boolean or bigint literal, and
  \<open>undefined\<close> for every other initializer, the literal \<open>null\<close> among them. One of the
  three names that no exported declarator assigns stays \<open>null\<close>.
\<close>

theorem getBlockMetadata_properties:
  assumes "endsWith filename' ''.vue''"
    and "parse env sourceCode filename' = Inr d"
    and "truthy_content (script d)"
    and "compileScript env d = Inr c"
    and "''__proto__'' \<notin> fst ` set (concat (map exported_assignments (scriptAst c)))"
  shows "\<exists>m. getBlockMetadata env filename' sourceCode = Inr m
           \<and> proto m = Object_prototype
           \<and> fst ` set (own_properties m) =
               {''description'', ''iframeHeight'', ''containerClass''}
               \<union> fst ` set (concat (map exported_assignments (scriptAst c)))
           \<and> distinct (map fst (own_properties m))
           \<and> (\<forall>k. map_of (own_properties m) k =
                 (case map_of (rev (concat (map exported_assignments (scriptAst c)))) k of
                    Some v \<Rightarrow> Some v
                  | None \<Rightarrow> if k \<in> {''description'', ''iframeHeight'', ''containerClass''}
                            then Some JSNull else None))"
proof -
  let ?as = "concat (map exported_assignments (scriptAst c))"
  let ?ps = "put_all (own_properties initial_metadata) ?as"
  let ?m = "initial_metadata\<lparr>own_properties := ?ps\<rparr>"
  have "getBlockMetadata env filename' sourceCode = Inr (assign_all initial_metadata ?as)"
    using assms(1-4) by (simp add: getBlockMetadata_def foldl_walk_assign_all)
  then have run: "getBlockMetadata env filename' sourceCode = Inr ?m"
    by (simp only: assign_all_put_all[OF assms(5)])
  have p: "proto ?m = Object_prototype"
    by (simp add: initial_metadata_def)
  have own: "own_properties ?m = ?ps"
    by simp
  have keys: "fst ` set (own_properties ?m)
      = {''description'', ''iframeHeight'', ''containerClass''} \<union> fst ` set ?as"
    unfolding own by (simp add: keys_put_all) (simp add: initial_metadata_def)
  have once: "distinct (map fst (own_properties ?m))"
    unfolding own by (rule distinct_put_all) (simp add: initial_metadata_def)
  have initial: "map_of (own_properties initial_metadata) k =
      (if k \<in> {''description'', ''iframeHeight'', ''containerClass''} then Some JSNull else None)"
    for k
    by (simp add: initial_metadata_def)
  have vals: "\<forall>k. map_of (own_properties ?m) k =
      (case map_of (rev ?as) k of
         Some v \<Rightarrow> Some v
       | None \<Rightarrow> if k \<in> {''description'', ''iframeHeight'', ''containerClass''}
                 then Some JSNull else None)"
    unfolding own by (simp only: map_of_put_all initial) simp
  show ?thesis
    by (intro exI[of _ ?m] conjI) (rule run p keys once vals)+
qed

theorem getBlockMetadata_properties_witness:
  "endsWith ''Dashboard.vue'' ''.vue''
   \<and> parse example_build_env page_vue ''Dashboard.vue''
       = Inr \<lparr>script = Some page_script, scriptSetup = Some page_setup_script\<rparr>
   \<and> truthy_content (script \<lparr>script = Some page_script, scriptSetup = Some page_setup_script\<rparr>)
   \<and> compileScript example_build_env
         \<lparr>script = Some page_script, scriptSetup = Some page_setup_script\<rparr>
       = Inr \<lparr>compiled_imports = Some [(''Card'', ''@/components/ui/card'')],
              scriptAst = page_ast\<rparr>
   \<and> concat (map exported_assignments page_ast)
       = [(''description'', JSString ''A dashboard''), (''iframeHeight'', JSUndefined),
          (''containerClass'', JSUndefined), (''foo'', JSString ''bar''),
          (''undefined'', JSUndefined)]
   \<and> ''__proto__'' \<notin> fst ` set (concat (map exported_assignments page_ast))
   \<and> (\<exists>m. getBlockMetadata example_build_env ''Dashboard.vue'' page_vue = Inr m
         \<and> proto m = Object_prototype
         \<and> fst ` set (own_properties m)
             = {''description'', ''iframeHeight'', ''containerClass'', ''foo'', ''undefined''}
         \<and> map_of (own_properties m) ''description'' = Some (JSString ''A dashboard'')
         \<and> map_of (own_properties m) ''iframeHeight'' = Some JSUndefined
         \<and> map_of (own_properties m) ''containerClass'' = Some JSUndefined
         \<and> map_of (own_properties m) ''foo'' = Some (JSString ''bar'')
         \<and> map_of (own_properties m) ''undefined'' = Some JSUndefined
         \<and> map_of (own_properties m) ''theme'' = None)"
proof -
  let ?d = "\<lparr>script = Some page_script, scriptSetup = Some page_setup_script\<rparr>"
  let ?c = "\<lparr>compiled_imports = Some [(''Card'', ''@/components/ui/card'')],
             scriptAst = page_ast\<rparr>"
  have h1: "endsWith ''Dashboard.vue'' ''.vue''"
    by (simp add: endsWith_def)
  have h2: "parse example_build_env page_vue ''Dashboard.vue'' = Inr ?d"
    by code_simp
  have h3: "truthy_content (script ?d)"
    by (simp add: truthy_content_def page_script_def)
  have h4: "compileScript example_build_env ?d = Inr ?c"
    by code_simp
  have as0: "concat (map exported_assignments page_ast) =
      [(''description'', JSString ''A dashboard''), (''iframeHeight'', JSUndefined),
       (''containerClass'', JSUndefined), (''foo'', JSString ''bar''),
       (''undefined'', JSUndefined)]"
    by (simp add: page_ast_def)
  have as: "concat (map exported_assignments (scriptAst ?c)) =
      [(''description'', JSString ''A dashboard''), (''iframeHeight'', JSUndefined),
       (''containerClass'', JSUndefined), (''foo'', JSString ''bar''),
       (''undefined'', JSUndefined)]"
    using as0 by simp
  have h5: "''__proto__'' \<notin> fst ` set (concat (map exported_assignments (scriptAst ?c)))"
    unfolding as by simp
  have h5': "''__proto__'' \<notin> fst ` set (concat (map exported_assignments page_ast))"
    unfolding as0 by simp
  from getBlockMetadata_properties[OF h1 h2 h3 h4 h5]
  obtain m where run: "getBlockMetadata example_build_env ''Dashboard.vue'' page_vue = Inr m"
    and p: "proto m = Object_prototype"
    and keys: "fst ` set (own_properties m) = {''description'', ''iframeHeight'', ''containerClass''}
        \<union> fst ` set (concat (map exported_assignments (scriptAst ?c)))"
    and vals: "\<forall>k. map_of (own_properties m) k =
        (case map_of (rev (concat (map exported_assignments (scriptAst ?c)))) k of
           Some v \<Rightarrow> Some v
         | None \<Rightarrow> if k \<in> {''description'', ''iframeHeight'', ''containerClass''}
                   then Some JSNull else None)"
    by blast
  have k: "fst ` set (own_properties m)
      = {''description'', ''iframeHeight'', ''containerClass'', ''foo'', ''undefined''}"
    unfolding keys as by auto
  have v1: "map_of (own_properties m) ''description'' = Some (JSString ''A dashboard'')"
    and v2: "map_of (own_properties m) ''iframeHeight'' = Some JSUndefined"
    and v3: "map_of (own_properties m) ''containerClass'' = Some JSUndefined"
    and v4: "map_of (own_properties m) ''foo'' = Some (JSString ''bar'')"
    and v5: "map_of (own_properties m) ''undefined'' = Some JSUndefined"
    and v6: "map_of (own_properties m) ''theme'' = None"
    unfolding vals[rule_format] as by simp_all
  show ?thesis using h1 h2 h3 h4 as0 h5' run p k v1 v2 v3 v4 v5 v6 by blast
qed

text \<open>
  Claim C5 as the specification states it fails on the page file of the example. Its
  plain script block exports \<open>description\<close> with a string, \<open>iframeHeight\<close> with a call,
  \<open>containerClass\<close> with the literal \<open>null\<close>, a fourth name \<open>foo\<close>, and a destructuring
  pattern. The result has five properties, \<open>foo\<close> and \<open>undefined\<close> among them, and
  \<open>iframeHeight\<close> and \<open>containerClass\<close> are \<open>undefined\<close>, not \<open>null\<close>.
\<close>

theorem getBlockMetadata_unknown_name_counterexample:
  "getBlockMetadata example_build_env ''Dashboard.vue'' page_vue
     = Inr \<lparr>own_properties =
              [(''description'', JSString ''A dashboard''), (''iframeHeight'', JSUndefined),
               (''containerClass'', JSUndefined), (''foo'', JSString ''bar''),
               (''undefined'', JSUndefined)],
            proto = Object_prototype\<rparr>"
  by code_simp

text \<open>
  Claim C10. When the parsed file has no plain script block, the extractor returns the
  three fields as \<open>null\<close>, whatever its setup script exports: the compiler is not called.
\<close>

theorem getBlockMetadata_setup_only:
  assumes "parse env sourceCode filename' = Inr d"
    and "script d = None"
  shows "getBlockMetadata env filename' sourceCode
           = Inr \<lparr>own_properties =
                    [(''description'', JSNull), (''iframeHeight'', JSNull),
                     (''containerClass'', JSNull)],
                  proto = Object_prototype\<rparr>"
  using assms by (simp add: getBlockMetadata_def truthy_content_def initial_metadata_def)

theorem getBlockMetadata_setup_only_witness:
  "parse example_build_env setup_vue ''Dashboard.vue''
     = Inr \<lparr>script = None, scriptSetup = Some setup_script\<rparr>
   \<and> script \<lparr>script = None, scriptSetup = Some setup_script\<rparr> = None
   \<and> getBlockMetadata example_build_env ''Dashboard.vue'' setup_vue
       = Inr \<lparr>own_properties =
                [(''description'', JSNull), (''iframeHeight'', JSNull),
                 (''containerClass'', JSNull)],
              proto = Object_prototype\<rparr>"
proof -
  have h1: "parse example_build_env setup_vue ''Dashboard.vue''
     = Inr \<lparr>script = None, scriptSetup = Some setup_script\<rparr>"
    by code_simp
  have h2: "script \<lparr>script = None, scriptSetup = Some setup_script\<rparr> = None"
    by simp
  show ?thesis
    using getBlockMetadata_setup_only[OF h1 h2] h1 h2 by blast
qed

section \<open>The crawls\<close>

lemma buildBlockRegistry_loop_no_files:
  "\<forall>e\<in>set entries. \<not> isFile e \<Longrightarrow>
     buildBlockRegistry_loop env blockPath blockName entries acc = Inr acc"
proof (induction entries)
  case Nil
  show ?case by simp
next
  case (Cons e entries)
  then show ?case by (cases acc) simp
qed

lemma crawlBlock_loop_not_file:
  "\<not> isFile d \<Longrightarrow>
   crawlBlock_loop env rootPath (d # dir) registry' =
     (case buildBlockRegistry env (rootPath @ ''/'' @ dirent_name d) (dirent_name d) of
        Inl e \<Rightarrow> Inl e
      | Inr result \<Rightarrow>
          if files result \<noteq> [] then crawlBlock_loop env rootPath dir (registry' @ [result])
          else crawlBlock_loop env rootPath dir registry')"
  by (simp split: sum.splits)

lemma crawlBlock_loop_file:
  "isFile d \<Longrightarrow>
   crawlBlock_loop env rootPath (d # dir) registry' =
     (if \<not> endsWith (dirent_name d) ''.vue'' then crawlBlock_loop env rootPath dir registry'
      else (case readFile env (join env [rootPath, dirent_name d]) of
              Inl e \<Rightarrow> Inl e
            | Inr source \<Rightarrow>
                (case getFileDependencies env (join env [rootPath, dirent_name d]) source of
                   Inl e \<Rightarrow> Inl e
                 | Inr found \<Rightarrow>
                     crawlBlock_loop env rootPath dir
                       (registry' @
                        [\<lparr>name = before_first ''.vue'' (dirent_name d),
                          item_type = Registry_block,
                          files = [\<lparr>file_name = Some (dirent_name d), content = source,
                                    path = join env [''block'', dirent_name d],
                                    target = ''pages/dashboard/index.vue'',
                                    file_type = Registry_block\<rparr>],
                          registryDependencies = registryDependencies_set found,
                          dependencies = dependencies_set found\<rparr>]))))"
  by (simp add: Let_def split: sum.splits)

lemma crawlBlock_loop_files:
  "crawlBlock_loop env rootPath dir registry' = Inr registry \<Longrightarrow>
   \<forall>item\<in>set registry'. files item \<noteq> [] \<Longrightarrow>
   \<forall>item\<in>set registry. files item \<noteq> []"
proof (induction dir arbitrary: registry')
  case Nil
  then show ?case by simp
next
  case (Cons d dir)
  note run = Cons.prems(1) and acc = Cons.prems(2)
  show ?case
  proof (cases "isFile d")
    case False
    note step = crawlBlock_loop_not_file[OF False, of env rootPath dir registry']
    show ?thesis
    proof (cases "buildBlockRegistry env (rootPath @ ''/'' @ dirent_name d) (dirent_name d)")
      case (Inl e)
      with run step show ?thesis by simp
    next
      case (Inr result)
      show ?thesis
      proof (cases "files result = []")
        case True
        with run step Inr have "crawlBlock_loop env rootPath dir registry' = Inr registry"
          by simp
        then show ?thesis using acc by (rule Cons.IH)
      next
        case False
        with run step Inr
        have "crawlBlock_loop env rootPath dir (registry' @ [result]) = Inr registry"
          by simp
        moreover have "\<forall>item\<in>set (registry' @ [result]). files item \<noteq> []"
          using acc False by simp
        ultimately show ?thesis by (rule Cons.IH)
      qed
    qed
  next
    case True
    note step = crawlBlock_loop_file[OF True, of env rootPath dir registry']
    show ?thesis
    proof (cases "endsWith (dirent_name d) ''.vue''")
      case False
      with run step have "crawlBlock_loop env rootPath dir registry' = Inr registry"
        by simp
      then show ?thesis using acc by (rule Cons.IH)
    next
      case vue: True
      show ?thesis
      proof (cases "readFile env (join env [rootPath, dirent_name d])")
        case (Inl e)
        with run step vue show ?thesis by simp
      next
        case (Inr source)
        show ?thesis
        proof (cases "getFileDependencies env (join env [rootPath, dirent_name d]) source")
          case (Inl e)
          with run step vue Inr show ?thesis by simp
        next
          case found: (Inr found)
          let ?item = "\<lparr>name = before_first ''.vue'' (dirent_name d),
                          item_type = Registry_block,
                          files = [\<lparr>file_name = Some (dirent_name d), content = source,
                                    path = join env [''block'', dirent_name d],
                                    target = ''pages/dashboard/index.vue'',
                                    file_type = Registry_block\<rparr>],
                          registryDependencies = registryDependencies_set found,
                          dependencies = dependencies_set found\<rparr>"
          from run step vue Inr found
          have "crawlBlock_loop env rootPath dir (registry' @ [?item]) = Inr registry"
            by simp
          moreover have "\<forall>item\<in>set (registry' @ [?item]). files item \<noteq> []"
            using acc by simp
          ultimately show ?thesis by (rule Cons.IH)
        qed
      qed
    qed
  qed
qed

text \<open>
  Claim C6. No item of the registry that \<open>crawlBlock\<close> returns is without files; an
  entry that is not a file and whose assembled item has no files adds nothing to the
  registry and raises nothing, the crawl going on with the next entry; and a block
  directory whose listing holds no file at all, as one with nothing but an empty
  \<open>components\<close> folder, assembles to an item without files.
\<close>

theorem crawlBlock_discards_empty_items:
  "(crawlBlock env rootPath = Inr registry \<longrightarrow> (\<forall>item\<in>set registry. files item \<noteq> []))
   \<and> (\<not> isFile d
        \<and> buildBlockRegistry env (rootPath @ ''/'' @ dirent_name d) (dirent_name d) = Inr result
        \<and> files result = []
        \<longrightarrow> crawlBlock_loop env rootPath (d # dir) registry'
              = crawlBlock_loop env rootPath dir registry')
   \<and> (readdir env blockPath True = Inr entries \<and> (\<forall>e\<in>set entries. \<not> isFile e)
        \<longrightarrow> buildBlockRegistry env blockPath blockName
              = Inr \<lparr>name = blockName, item_type = Registry_block, files = [],
                     registryDependencies = [], dependencies = []\<rparr>)"
proof (intro conjI impI)
  assume run: "crawlBlock env rootPath = Inr registry"
  then obtain entries where "readdir env rootPath False = Inr entries"
    and "crawlBlock_loop env rootPath entries [] = Inr registry"
    by (cases "readdir env rootPath False") (simp_all add: crawlBlock_def)
  then show "\<forall>item\<in>set registry. files item \<noteq> []"
    using crawlBlock_loop_files[of env rootPath entries "[]" registry] by simp
next
  assume "\<not> isFile d
        \<and> buildBlockRegistry env (rootPath @ ''/'' @ dirent_name d) (dirent_name d) = Inr result
        \<and> files result = []"
  then show "crawlBlock_loop env rootPath (d # dir) registry'
              = crawlBlock_loop env rootPath dir registry'"
    by (simp add: crawlBlock_loop_not_file)
next
  assume "readdir env blockPath True = Inr entries \<and> (\<forall>e\<in>set entries. \<not> isFile e)"
  then show "buildBlockRegistry env blockPath blockName
              = Inr \<lparr>name = blockName, item_type = Registry_block, files = [],
                     registryDependencies = [], dependencies = []\<rparr>"
    by (simp add: buildBlockRegistry_def buildBlockRegistry_loop_no_files no_deps_def)
qed

theorem crawlBlock_discards_empty_items_witness:
  "(\<exists>registry. crawlBlock example_build_env ''/registry/block'' = Inr registry
       \<and> map name registry = [''Dashboard'']
       \<and> map registryDependencies registry = [[''card'']]
       \<and> (\<forall>item\<in>set registry. files item \<noteq> []))
   \<and> \<not> isFile \<lparr>dirent_name = ''placeholder'', dirent_kind = Dirent_directory\<rparr>
   \<and> buildBlockRegistry example_build_env ''/registry/block/placeholder'' ''placeholder''
       = Inr \<lparr>name = ''placeholder'', item_type = Registry_block, files = [],
              registryDependencies = [], dependencies = []\<rparr>
   \<and> crawlBlock_loop example_build_env ''/registry/block''
         [\<lparr>dirent_name = ''placeholder'', dirent_kind = Dirent_directory\<rparr>,
          \<lparr>dirent_name = ''Dashboard.vue'', dirent_kind = Dirent_file\<rparr>] []
       = crawlBlock_loop example_build_env ''/registry/block''
           [\<lparr>dirent_name = ''Dashboard.vue'', dirent_kind = Dirent_file\<rparr>] []
   \<and> readdir example_build_env ''/registry/block/placeholder'' True
       = Inr [\<lparr>dirent_name = ''components'', dirent_kind = Dirent_directory\<rparr>]
   \<and> list_all (\<lambda>e. \<not> isFile e) [\<lparr>dirent_name = ''components'', dirent_kind = Dirent_directory\<rparr>]"
proof -
  let ?env = example_build_env
  let ?d = "\<lparr>dirent_name = ''placeholder'', dirent_kind = Dirent_directory\<rparr>"
  let ?entries = "[\<lparr>dirent_name = ''components'', dirent_kind = Dirent_directory\<rparr>]"
  let ?empty = "\<lparr>name = ''placeholder'', item_type = Registry_block, files = [],
                 registryDependencies = [], dependencies = []\<rparr>"
  note claim = crawlBlock_discards_empty_items
  have listing: "readdir ?env ''/registry/block/placeholder'' True = Inr ?entries"
    by (simp add: example_build_env_def)
  have no_file: "\<forall>e\<in>set ?entries. \<not> isFile e"
    by (simp add: isFile_def)
  have built: "buildBlockRegistry ?env ''/registry/block/placeholder'' ''placeholder'' = Inr ?empty"
    using claim[of ?env _ _ _ _ _ _ "''/registry/block/placeholder''" ?entries "''placeholder''"]
      listing no_file by blast
  have dir: "\<not> isFile ?d"
    by (simp add: isFile_def)
  have built': "buildBlockRegistry ?env (''/registry/block'' @ ''/'' @ dirent_name ?d) (dirent_name ?d)
      = Inr ?empty"
    using built by simp
  have skipped: "crawlBlock_loop ?env ''/registry/block''
         [?d, \<lparr>dirent_name = ''Dashboard.vue'', dirent_kind = Dirent_file\<rparr>] []
       = crawlBlock_loop ?env ''/registry/block''
           [\<lparr>dirent_name = ''Dashboard.vue'', dirent_kind = Dirent_file\<rparr>] []"
    using claim[of ?env "''/registry/block''" _ ?d ?empty _ "[]"] dir built' by simp
  have "case crawlBlock ?env ''/registry/block'' of
          Inl e \<Rightarrow> False
        | Inr registry \<Rightarrow> map name registry = [''Dashboard'']
                          \<and> map registryDependencies registry = [[''card'']]"
    by code_simp
  then obtain registry where run: "crawlBlock ?env ''/registry/block'' = Inr registry"
    and names: "map name registry = [''Dashboard'']"
    and deps: "map registryDependencies registry = [[''card'']]"
    by (cases "crawlBlock ?env ''/registry/block''") auto
  have "\<forall>item\<in>set registry. files item \<noteq> []"
    using claim[of ?env "''/registry/block''" registry] run by blast
  then show ?thesis
    using run names deps dir built skipped listing no_file by (auto simp: isFile_def)
qed

lemma buildUIRegistry_loop_step:
  "buildUIRegistry_loop env componentPath componentName (d # dir) (fs, deps) = Inr r \<Longrightarrow>
   (\<not> isFile d \<and> buildUIRegistry_loop env componentPath componentName dir (fs, deps) = Inr r)
   \<or> (\<exists>source deps'. isFile d
        \<and> buildUIRegistry_loop env componentPath componentName dir
             (fs @ [\<lparr>file_name = None, content = source,
                      path = join env [''ui'', componentName, dirent_name d],
                      target = componentName @ ''/'' @ dirent_name d,
                      file_type = Registry_ui\<rparr>], deps') = Inr r)"
  by (cases "isFile d") (auto simp: Let_def split: sum.splits if_splits)

lemma buildUIRegistry_loop_targets:
  "buildUIRegistry_loop env componentPath componentName dir (fs, deps) = Inr (fs', deps') \<Longrightarrow>
   map target fs' = map target fs
       @ map (\<lambda>d. componentName @ ''/'' @ dirent_name d) (filter isFile dir)
   \<and> (list_all (\<lambda>f. file_type f = Registry_ui) fs \<longrightarrow> list_all (\<lambda>f. file_type f = Registry_ui) fs')"
proof (induction dir arbitrary: fs deps)
  case Nil
  then show ?case by simp
next
  case (Cons d dir)
  from buildUIRegistry_loop_step[OF Cons.prems]
  show ?case
  proof (elim disjE conjE exE)
    assume "\<not> isFile d"
      and "buildUIRegistry_loop env componentPath componentName dir (fs, deps) = Inr (fs', deps')"
    then show ?thesis using Cons.IH by simp
  next
    fix source deps1
    assume f: "isFile d"
      and r: "buildUIRegistry_loop env componentPath componentName dir
             (fs @ [\<lparr>file_name = None, content = source,
                      path = join env [''ui'', componentName, dirent_name d],
                      target = componentName @ ''/'' @ dirent_name d,
                      file_type = Registry_ui\<rparr>], deps1) = Inr (fs', deps')"
    from Cons.IH[OF r] f show ?thesis by simp
  qed
qed

lemma crawlUI_loop_names:
  "crawlUI_loop env rootPath dir uiRegistry = Inr registry \<Longrightarrow>
   map name registry = map name uiRegistry @ map dirent_name (filter isDirectory dir)"
proof (induction dir arbitrary: uiRegistry)
  case Nil
  then show ?case by simp
next
  case (Cons d dir)
  show ?case
  proof (cases "isDirectory d")
    case False
    with Cons.prems have "crawlUI_loop env rootPath dir uiRegistry = Inr registry" by simp
    from Cons.IH[OF this] False show ?thesis by simp
  next
    case True
    show ?thesis
    proof (cases "buildUIRegistry env (resolve env [rootPath, dirent_name d]) (dirent_name d)")
      case (Inl e)
      with Cons.prems True show ?thesis by (simp add: Let_def)
    next
      case (Inr ui)
      with Cons.prems True
      have r: "crawlUI_loop env rootPath dir (uiRegistry @ [ui]) = Inr registry"
        by (simp add: Let_def)
      have "name ui = dirent_name d"
        using Inr by (auto simp: buildUIRegistry_def split: sum.splits prod.splits)
      with Cons.IH[OF r] True show ?thesis by simp
    qed
  qed
qed

text \<open>
  What the ui crawl produces when it returns: an item for every directory entry of the
  recursive listing, at whatever depth, under the base name of the entry; and each item
  has the files directly inside the directory it was built from, with the targets
  \<open>{componentName}/{fileName}\<close>.
\<close>

lemma crawlUI_names:
  assumes "crawlUI env rootPath = Inr registry" and "readdir env rootPath True = Inr dir"
  shows "map name registry = map dirent_name (filter isDirectory dir)"
  using assms crawlUI_loop_names[of env rootPath dir "[]" registry]
  by (simp add: crawlUI_def)

lemma buildUIRegistry_item:
  assumes "buildUIRegistry env componentPath componentName = Inr ui"
    and "readdir env componentPath False = Inr dir"
  shows "name ui = componentName \<and> item_type ui = Registry_ui
     \<and> map target (files ui)
         = map (\<lambda>d. componentName @ ''/'' @ dirent_name d) (filter isFile dir)
     \<and> list_all (\<lambda>f. file_type f = Registry_ui) (files ui)"
proof -
  from assms obtain fs deps where
    run: "buildUIRegistry_loop env componentPath componentName dir ([], no_deps) = Inr (fs, deps)"
    and ui: "ui = \<lparr>name = componentName, item_type = Registry_ui, files = fs,
                   registryDependencies = registryDependencies_set deps,
                   dependencies = dependencies_set deps\<rparr>"
    by (cases "buildUIRegistry_loop env componentPath componentName dir ([], no_deps)")
       (auto simp: buildUIRegistry_def)
  from buildUIRegistry_loop_targets[OF run] show ?thesis
    by (simp add: ui)
qed

text \<open>
  Claim C3 is not what \<open>crawlUI\<close> does when a component directory has a directory in
  it. The listing of the ui root is recursive, so the nested directory \<open>parts\<close> of the
  example is among the entries, and its item is built from the path \<open>parts\<close> under the
  root, which does not exist: the crawl ends with the exception of \<open>readdir\<close>, where the
  claim has one item, \<open>button\<close>, with the two files of that directory. (The item of
  \<open>button\<close> itself is built as the claim says.)
\<close>

theorem crawlUI_nested_directory:
  "(case buildUIRegistry example_build_env ''/registry/ui/button'' ''button'' of
      Inl e \<Rightarrow> False
    | Inr ui \<Rightarrow> name ui = ''button''
               \<and> map target (files ui) = [''button/Button.vue'', ''button/index.ts''])
   \<and> crawlUI example_build_env ''/registry/ui'' = Inl (FsError ''ENOENT'')"
  by code_simp

section \<open>The installer: the loop body and the loop\<close>

lemma destination_projectInfo:
  "destination env p config file = destination env None config file"
  unfolding destination_def resolveTargetDir_def by (rule refl)

lemma folder_prompts_append:
  "folder_prompts (qs @ rs) = folder_prompts qs @ folder_prompts rs"
  by (induction qs rule: folder_prompts.induct) simp_all


text \<open>The conflict policy on a ui file, by the three cases of its folder.\<close>

lemma resolve_conflict_ui:
  assumes "file_type file = Registry_ui"
  shows "resolve_conflict env config opts file filePath st =
     (let n = basename env (dirname env filePath);
          rel = path_relative env (cwd config) filePath
      in if \<not> existsSync env (disk st) (dirname env filePath)
         then (False, st\<lparr>folderSkipped := (folderSkipped st)(n \<mapsto> False)\<rparr>)
         else (case folderSkipped st n of
                 Some b \<Rightarrow>
                   if b then (True, st\<lparr>filesSkipped := filesSkipped st @ [rel]\<rparr>)
                   else (False, st)
               | None \<Rightarrow>
                   if prompts env (asked st) (Folder_exists n)
                   then (False, st\<lparr>folderSkipped := (folderSkipped st)(n \<mapsto> False),
                                  asked := asked st @ [(Folder_exists n, True)]\<rparr>)
                   else (True, st\<lparr>folderSkipped := (folderSkipped st)(n \<mapsto> True),
                                 asked := asked st @ [(Folder_exists n, False)],
                                 filesSkipped := filesSkipped st @ [rel]\<rparr>)))"
  using assms by (simp add: resolve_conflict_def ask_def Let_def split: option.splits)

lemma resolve_conflict_other:
  assumes "file_type file \<noteq> Registry_ui"
  shows "resolve_conflict env config opts file filePath st =
     (let rel = path_relative env (cwd config) filePath;
          q = File_exists (basename env (path file))
      in if existsSync env (disk st) filePath \<and> overwrite opts \<noteq> Some True
         then if prompts env (asked st) q
              then (False, st\<lparr>asked := asked st @ [(q, True)]\<rparr>)
              else (True, st\<lparr>asked := asked st @ [(q, False)],
                            filesSkipped := filesSkipped st @ [rel]\<rparr>)
         else (False, st))"
  using assms by (auto simp: resolve_conflict_def ask_def Let_def split: option.splits)


lemma write_file_effect:
  "folderSkipped (write_file env config bc file filePath targetDir ex st) = folderSkipped st
   \<and> asked (write_file env config bc file filePath targetDir ex st) = asked st
   \<and> filesSkipped (write_file env config bc file filePath targetDir ex st) = filesSkipped st
   \<and> (\<exists>out. outcomes (write_file env config bc file filePath targetDir ex st)
                = outcomes st @ [out] \<and> written_or_failed filePath out)"
  by (simp add: write_file_def fail_def Let_def split: sum.splits)






text \<open>What the loop body does to the map, the prompts, the skipped list and the outcomes,
  for a ui file with content.\<close>

lemma updateFile_ui:
  assumes "ui_with_content file"
  shows "\<exists>out. outcomes (updateFile env config opts pinfo bc file st) = outcomes st @ [out]
     \<and> (let st' = updateFile env config opts pinfo bc file st;
             n = folderName_of env config file;
             rel = skipped_path env config file;
             fp = filePath_of env config file
         in if \<not> existsSync env (disk st) (folder_of env config file)
            then folderSkipped st' = (folderSkipped st)(n \<mapsto> False) \<and> asked st' = asked st
                 \<and> filesSkipped st' = filesSkipped st \<and> written_or_failed fp out
            else (case folderSkipped st n of
                    Some b \<Rightarrow>
                      folderSkipped st' = folderSkipped st \<and> asked st' = asked st
                      \<and> (if b then out = Skipped rel
                                   \<and> filesSkipped st' = filesSkipped st @ [rel]
                          else filesSkipped st' = filesSkipped st \<and> written_or_failed fp out)
                  | None \<Rightarrow>
                      if prompts env (asked st) (Folder_exists n)
                      then folderSkipped st' = (folderSkipped st)(n \<mapsto> False)
                           \<and> asked st' = asked st @ [(Folder_exists n, True)]
                           \<and> filesSkipped st' = filesSkipped st \<and> written_or_failed fp out
                      else folderSkipped st' = (folderSkipped st)(n \<mapsto> True)
                           \<and> asked st' = asked st @ [(Folder_exists n, False)]
                           \<and> out = Skipped rel
                           \<and> filesSkipped st' = filesSkipped st @ [rel]))"
proof -
  obtain filePath targetDir where dest: "destination env pinfo config file = (filePath, targetDir)"
    by (cases "destination env pinfo config file")
  then have fp: "filePath_of env config file = filePath"
    using destination_projectInfo[of env pinfo config "file"] by (simp add: filePath_of_def)
  have ui: "file_type file = Registry_ui" and c: "content file \<noteq> []"
    using assms by (simp_all add: ui_with_content_def)
  note rc = resolve_conflict_ui[OF ui, of env config opts filePath st]
  note wf = write_file_effect[of env config bc "file" filePath targetDir]
  show ?thesis
  proof (cases "existsSync env (disk st) (dirname env filePath)")
    case False
    with rc have r: "resolve_conflict env config opts file filePath st =
        (False, st\<lparr>folderSkipped := (folderSkipped st)(basename env (dirname env filePath) \<mapsto> False)\<rparr>)"
      by (simp add: Let_def)
    show ?thesis
      using False wf[of "existsSync env (disk st) filePath"
          "st\<lparr>folderSkipped := (folderSkipped st)(basename env (dirname env filePath) \<mapsto> False)\<rparr>"]
      by (auto simp: updateFile_def c dest r fp folder_of_def folderName_of_def skipped_path_def Let_def)
  next
    case True
    show ?thesis
    proof (cases "folderSkipped st (basename env (dirname env filePath))")
      case (Some b)
      show ?thesis
      proof (cases b)
        case True
        with rc Some \<open>existsSync env (disk st) (dirname env filePath)\<close>
        have r: "resolve_conflict env config opts file filePath st =
            (True, st\<lparr>filesSkipped := filesSkipped st @ [path_relative env (cwd config) filePath]\<rparr>)"
          by (simp add: Let_def)
        show ?thesis
          using True Some \<open>existsSync env (disk st) (dirname env filePath)\<close>
          by (simp add: updateFile_def c dest r fp folder_of_def folderName_of_def
              skipped_path_def Let_def)
      next
        case False
        with rc Some \<open>existsSync env (disk st) (dirname env filePath)\<close>
        have r: "resolve_conflict env config opts file filePath st = (False, st)"
          by (simp add: Let_def)
        show ?thesis
          using False Some \<open>existsSync env (disk st) (dirname env filePath)\<close>
            wf[of "existsSync env (disk st) filePath" st]
          by (auto simp: updateFile_def c dest r fp folder_of_def folderName_of_def
              skipped_path_def Let_def)
      qed
    next
      case None
      show ?thesis
      proof (cases "prompts env (asked st) (Folder_exists (basename env (dirname env filePath)))")
        case True
        let ?s = "st\<lparr>folderSkipped := (folderSkipped st)(basename env (dirname env filePath) \<mapsto> False),
                      asked := asked st @ [(Folder_exists (basename env (dirname env filePath)), True)]\<rparr>"
        from rc None True \<open>existsSync env (disk st) (dirname env filePath)\<close>
        have r: "resolve_conflict env config opts file filePath st = (False, ?s)"
          by (simp add: Let_def)
        show ?thesis
          using True None \<open>existsSync env (disk st) (dirname env filePath)\<close>
            wf[of "existsSync env (disk st) filePath" ?s]
          by (auto simp: updateFile_def c dest r fp folder_of_def folderName_of_def
              skipped_path_def Let_def)
      next
        case False
        let ?s = "st\<lparr>folderSkipped := (folderSkipped st)(basename env (dirname env filePath) \<mapsto> True),
                      asked := asked st @ [(Folder_exists (basename env (dirname env filePath)), False)],
                      filesSkipped := filesSkipped st @ [path_relative env (cwd config) filePath]\<rparr>"
        from rc None False \<open>existsSync env (disk st) (dirname env filePath)\<close>
        have r: "resolve_conflict env config opts file filePath st = (True, ?s)"
          by (simp add: Let_def)
        show ?thesis
          using False None \<open>existsSync env (disk st) (dirname env filePath)\<close>
          by (simp add: updateFile_def c dest r fp folder_of_def folderName_of_def
              skipped_path_def Let_def)
      qed
    qed
  qed
qed

lemma updateFile_other:
  assumes "\<not> ui_with_content file"
  shows "folderSkipped (updateFile env config opts pinfo bc file st) = folderSkipped st
     \<and> (\<forall>n a. ((Folder_exists n, a) \<in> set (asked (updateFile env config opts pinfo bc file st)))
               = ((Folder_exists n, a) \<in> set (asked st)))
     \<and> folder_prompts (asked (updateFile env config opts pinfo bc file st))
         = folder_prompts (asked st)
     \<and> (\<exists>out. outcomes (updateFile env config opts pinfo bc file st) = outcomes st @ [out])
     \<and> set (filesSkipped st) \<subseteq> set (filesSkipped (updateFile env config opts pinfo bc file st))"
proof (cases "content file = []")
  case True
  then show ?thesis by (simp add: updateFile_def)
next
  case False
  then have other: "file_type file \<noteq> Registry_ui"
    using assms by (simp add: ui_with_content_def)
  obtain filePath targetDir where dest: "destination env pinfo config file = (filePath, targetDir)"
    by (cases "destination env pinfo config file")
  note rc = resolve_conflict_other[OF other, of env config opts filePath st]
  obtain sk st1 where r: "resolve_conflict env config opts file filePath st = (sk, st1)"
    by (cases "resolve_conflict env config opts file filePath st")
  have st1: "folderSkipped st1 = folderSkipped st
      \<and> (\<forall>n a. ((Folder_exists n, a) \<in> set (asked st1)) = ((Folder_exists n, a) \<in> set (asked st)))
      \<and> folder_prompts (asked st1) = folder_prompts (asked st)
      \<and> outcomes st1 = outcomes st
      \<and> set (filesSkipped st) \<subseteq> set (filesSkipped st1)"
    using rc r by (auto simp: Let_def folder_prompts_append split: if_splits)
  show ?thesis
  proof (cases sk)
    case True
    then show ?thesis using False dest r st1 by (simp add: updateFile_def)
  next
    case nsk: False
    note wf = write_file_effect[of env config bc "file" filePath targetDir
        "existsSync env (disk st) filePath" st1]
    have "updateFile env config opts pinfo bc file st
        = write_file env config bc file filePath targetDir (existsSync env (disk st) filePath) st1"
      using False dest r nsk by (simp add: updateFile_def)
    then show ?thesis using wf st1 by auto
  qed
qed


lemma updateFile_ui_cases [consumes 1, case_names new cached_skip cached_write accepted declined]:
  fixes env :: "'fs install_env" and config opts pinfo bc f st
  assumes "ui_with_content f"
  defines "st' \<equiv> updateFile env config opts pinfo bc f st"
    and "n \<equiv> folderName_of env config f"
    and "rel \<equiv> skipped_path env config f"
    and "fp \<equiv> filePath_of env config f"
  obtains
    (new) out where "\<not> existsSync env (disk st) (folder_of env config f)"
      "folderSkipped st' = (folderSkipped st)(n \<mapsto> False)" "asked st' = asked st"
      "filesSkipped st' = filesSkipped st" "outcomes st' = outcomes st @ [out]"
      "written_or_failed fp out"
  | (cached_skip) "existsSync env (disk st) (folder_of env config f)"
      "folderSkipped st n = Some True"
      "folderSkipped st' = folderSkipped st" "asked st' = asked st"
      "filesSkipped st' = filesSkipped st @ [rel]" "outcomes st' = outcomes st @ [Skipped rel]"
  | (cached_write) out where "existsSync env (disk st) (folder_of env config f)"
      "folderSkipped st n = Some False"
      "folderSkipped st' = folderSkipped st" "asked st' = asked st"
      "filesSkipped st' = filesSkipped st" "outcomes st' = outcomes st @ [out]"
      "written_or_failed fp out"
  | (accepted) out where "existsSync env (disk st) (folder_of env config f)"
      "folderSkipped st n = None"
      "folderSkipped st' = (folderSkipped st)(n \<mapsto> False)"
      "asked st' = asked st @ [(Folder_exists n, True)]"
      "filesSkipped st' = filesSkipped st" "outcomes st' = outcomes st @ [out]"
      "written_or_failed fp out"
  | (declined) "existsSync env (disk st) (folder_of env config f)"
      "folderSkipped st n = None"
      "folderSkipped st' = (folderSkipped st)(n \<mapsto> True)"
      "asked st' = asked st @ [(Folder_exists n, False)]"
      "filesSkipped st' = filesSkipped st @ [rel]" "outcomes st' = outcomes st @ [Skipped rel]"
proof -
  from updateFile_ui[OF assms(1), of env config opts pinfo bc st]
  obtain out where out: "outcomes st' = outcomes st @ [out]"
    and eff: "if \<not> existsSync env (disk st) (folder_of env config f)
            then folderSkipped st' = (folderSkipped st)(n \<mapsto> False) \<and> asked st' = asked st
                 \<and> filesSkipped st' = filesSkipped st \<and> written_or_failed fp out
            else (case folderSkipped st n of
                    Some b \<Rightarrow>
                      folderSkipped st' = folderSkipped st \<and> asked st' = asked st
                      \<and> (if b then out = Skipped rel
                                   \<and> filesSkipped st' = filesSkipped st @ [rel]
                          else filesSkipped st' = filesSkipped st \<and> written_or_failed fp out)
                  | None \<Rightarrow>
                      if prompts env (asked st) (Folder_exists n)
                      then folderSkipped st' = (folderSkipped st)(n \<mapsto> False)
                           \<and> asked st' = asked st @ [(Folder_exists n, True)]
                           \<and> filesSkipped st' = filesSkipped st \<and> written_or_failed fp out
                      else folderSkipped st' = (folderSkipped st)(n \<mapsto> True)
                           \<and> asked st' = asked st @ [(Folder_exists n, False)]
                           \<and> out = Skipped rel
                           \<and> filesSkipped st' = filesSkipped st @ [rel])"
    unfolding st'_def n_def rel_def fp_def Let_def by blast
  show thesis
  proof (cases "existsSync env (disk st) (folder_of env config f)")
    case False
    with eff out show thesis by (intro new[of out]) simp_all
  next
    case True
    show thesis
    proof (cases "folderSkipped st n")
      case None
      show thesis
      proof (cases "prompts env (asked st) (Folder_exists n)")
        case ans_yes: True
        with eff out True None show thesis by (intro accepted[of out]) simp_all
      next
        case ans_no: False
        with eff out True None show thesis by (intro declined) simp_all
      qed
    next
      case (Some b)
      show thesis
      proof (cases b)
        case b_true: True
        with eff out True Some show thesis by (intro cached_skip) simp_all
      next
        case b_false: False
        with eff out True Some show thesis by (intro cached_write[of out]) simp_all
      qed
    qed
  qed
qed







lemma step_skipped_grows:
  "set (filesSkipped st) \<subseteq> set (filesSkipped (updateFile env config opts pinfo bc f st))"
proof (cases "ui_with_content f")
  case False
  from updateFile_other[OF False, of env config opts pinfo bc st] show ?thesis by blast
next
  case True
  then show ?thesis
    by (cases rule: updateFile_ui_cases[where env = env and config = config and opts = opts
        and pinfo = pinfo and bc = bc and st = st]) auto
qed

lemma loop_skipped_grows:
  "set (filesSkipped st) \<subseteq> set (filesSkipped (updateFiles_loop env config opts pinfo bc fs st))"
proof (induction fs arbitrary: st)
  case Nil
  show ?case by simp
next
  case (Cons f fs)
  from step_skipped_grows[of st env config opts pinfo bc f]
    Cons.IH[of "updateFile env config opts pinfo bc f st"]
  show ?case by (auto simp: Let_def)
qed

lemma step_outcome:
  "\<exists>out. outcomes (updateFile env config opts pinfo bc f st) = outcomes st @ [out]"
proof (cases "ui_with_content f")
  case False
  from updateFile_other[OF False, of env config opts pinfo bc st] show ?thesis by blast
next
  case True
  then show ?thesis
    by (cases rule: updateFile_ui_cases[where env = env and config = config and opts = opts
        and pinfo = pinfo and bc = bc and st = st]) auto
qed

lemma loop_Cons_thrown:
  "thrown (updateFile env config opts pinfo bc f st) \<noteq> None \<Longrightarrow>
   updateFiles_loop env config opts pinfo bc (f # fs) st = updateFile env config opts pinfo bc f st"
  by (simp add: Let_def)

lemma loop_Cons_go:
  "thrown (updateFile env config opts pinfo bc f st) = None \<Longrightarrow>
   updateFiles_loop env config opts pinfo bc (f # fs) st
     = updateFiles_loop env config opts pinfo bc fs (updateFile env config opts pinfo bc f st)"
  by (simp add: Let_def)

lemma loop_outcomes:
  "\<exists>new. outcomes (updateFiles_loop env config opts pinfo bc fs st) = outcomes st @ new
     \<and> length new \<le> length fs
     \<and> (thrown (updateFiles_loop env config opts pinfo bc fs st) = None \<longrightarrow> length new = length fs)"
proof (induction fs arbitrary: st)
  case Nil
  show ?case by simp
next
  case (Cons f fs)
  let ?st1 = "updateFile env config opts pinfo bc f st"
  let ?st' = "updateFiles_loop env config opts pinfo bc (f # fs) st"
  obtain out where out: "outcomes ?st1 = outcomes st @ [out]"
    using step_outcome by blast
  show ?case
  proof (cases "thrown ?st1 = None")
    case False
    have e: "?st' = ?st1" using False by (rule loop_Cons_thrown)
    have 1: "outcomes ?st' = outcomes st @ [out]" by (simp only: e out)
    have 2: "length [out] \<le> length (f # fs)" by simp
    have 3: "thrown ?st' \<noteq> None"
      unfolding e by (rule False)
    show ?thesis
    proof (intro exI[of _ "[out]"] conjI impI)
      show "outcomes ?st' = outcomes st @ [out]" by (rule 1)
      show "length [out] \<le> length (f # fs)" by simp
      assume "thrown ?st' = None"
      with 3 show "length [out] = length (f # fs)" by contradiction
    qed
  next
    case True
    have e: "?st' = updateFiles_loop env config opts pinfo bc fs ?st1"
      using True by (rule loop_Cons_go)
    from Cons.IH[of ?st1] obtain new where
      n: "outcomes (updateFiles_loop env config opts pinfo bc fs ?st1) = outcomes ?st1 @ new
          \<and> length new \<le> length fs
          \<and> (thrown (updateFiles_loop env config opts pinfo bc fs ?st1) = None
                \<longrightarrow> length new = length fs)" ..
    note n1 = n[THEN conjunct1] and n2 = n[THEN conjunct2, THEN conjunct1]
      and n3 = n[THEN conjunct2, THEN conjunct2]
    have 1: "outcomes ?st' = outcomes st @ (out # new)" by (simp only: e n1 out) simp
    have 2: "length (out # new) \<le> length (f # fs)" using n2 by simp
    have 3: "thrown ?st' = None \<longrightarrow> length (out # new) = length (f # fs)"
      using n3 by (simp only: e) simp
    show ?thesis
      by (intro exI[of _ "out # new"] conjI) (rule 1 2 3)+
  qed
qed






text \<open>
  A file that was skipped was not written: the conflict policy touches neither the disk nor
  the created and updated lists, and the loop body ends after it when the file is skipped.
\<close>

lemma resolve_conflict_keeps:
  "disk (snd (resolve_conflict env config opts file filePath st)) = disk st
   \<and> filesCreated (snd (resolve_conflict env config opts file filePath st)) = filesCreated st
   \<and> filesUpdated (snd (resolve_conflict env config opts file filePath st)) = filesUpdated st
   \<and> outcomes (snd (resolve_conflict env config opts file filePath st)) = outcomes st
   \<and> thrown (snd (resolve_conflict env config opts file filePath st)) = thrown st"
  by (cases "file_type file = Registry_ui")
     (simp_all add: resolve_conflict_ui resolve_conflict_other Let_def split: option.splits)


lemma write_file_lists_grow:
  "set (filesUpdated st) \<subseteq> set (filesUpdated (write_file env config bc file filePath targetDir ex st))
   \<and> set (filesCreated st) \<subseteq> set (filesCreated (write_file env config bc file filePath targetDir ex st))"
  by (auto simp: write_file_def fail_def Let_def split: sum.splits)

lemma step_lists_grow:
  "set (filesUpdated st) \<subseteq> set (filesUpdated (updateFile env config opts pinfo bc f st))
   \<and> set (filesCreated st) \<subseteq> set (filesCreated (updateFile env config opts pinfo bc f st))"
proof (cases "content f = []")
  case True
  then show ?thesis by (simp add: updateFile_def)
next
  case False
  obtain filePath targetDir where dest: "destination env pinfo config f = (filePath, targetDir)"
    by (cases "destination env pinfo config f")
  obtain sk st1 where rc: "resolve_conflict env config opts f filePath st = (sk, st1)"
    by (cases "resolve_conflict env config opts f filePath st")
  have keeps: "filesCreated st1 = filesCreated st \<and> filesUpdated st1 = filesUpdated st"
    using resolve_conflict_keeps[of env config opts f filePath st] rc by simp
  show ?thesis
  proof (cases sk)
    case True
    then show ?thesis using False dest rc keeps by (simp add: updateFile_def)
  next
    case nsk: False
    have step: "updateFile env config opts pinfo bc f st
        = write_file env config bc f filePath targetDir (existsSync env (disk st) filePath) st1"
      using False dest rc nsk by (simp add: updateFile_def)
    show ?thesis
      unfolding step
      using write_file_lists_grow[of st1 env config bc f filePath targetDir
          "existsSync env (disk st) filePath"] keeps
      by simp
  qed
qed

lemma loop_lists_grow:
  "set (filesUpdated st) \<subseteq> set (filesUpdated (updateFiles_loop env config opts pinfo bc fs st))
   \<and> set (filesCreated st) \<subseteq> set (filesCreated (updateFiles_loop env config opts pinfo bc fs st))"
proof (induction fs arbitrary: st)
  case Nil
  show ?case by simp
next
  case (Cons f fs)
  from step_lists_grow[of st env config opts pinfo bc f]
    Cons.IH[of "updateFile env config opts pinfo bc f st"]
  show ?case by (auto simp: Let_def)
qed

text \<open>
  When no call threw on the files before position \<open>i\<close>, the loop comes to the file at
  that position in the state those files left, and goes on with the files after it.
\<close>

lemma loop_reach:
  "i \<le> length fs \<Longrightarrow>
   thrown (updateFiles_loop env config opts pinfo bc (take i fs) st) = None \<Longrightarrow>
   updateFiles_loop env config opts pinfo bc fs st
     = updateFiles_loop env config opts pinfo bc (drop i fs)
         (updateFiles_loop env config opts pinfo bc (take i fs) st)
   \<and> length (outcomes (updateFiles_loop env config opts pinfo bc (take i fs) st))
       = length (outcomes st) + i"
proof (induction fs arbitrary: i st)
  case Nil
  then show ?case by simp
next
  case (Cons f fs)
  show ?case
  proof (cases i)
    case 0
    then show ?thesis by simp
  next
    case (Suc j)
    let ?st1 = "updateFile env config opts pinfo bc f st"
    have pre: "thrown (updateFiles_loop env config opts pinfo bc (f # take j fs) st) = None"
      using Cons.prems(2) unfolding Suc by simp
    have t: "thrown ?st1 = None"
    proof (rule ccontr)
      assume n: "thrown ?st1 \<noteq> None"
      have "updateFiles_loop env config opts pinfo bc (f # take j fs) st = ?st1"
        using n by (rule loop_Cons_thrown)
      with pre n show False by simp
    qed
    have j: "j \<le> length fs" using Cons.prems(1) Suc by simp
    have tj: "thrown (updateFiles_loop env config opts pinfo bc (take j fs) ?st1) = None"
      using pre unfolding loop_Cons_go[OF t] .
    note ih = Cons.IH[OF j tj]
    obtain out where out: "outcomes ?st1 = outcomes st @ [out]"
      using step_outcome by blast
    have a: "updateFiles_loop env config opts pinfo bc (f # fs) st
        = updateFiles_loop env config opts pinfo bc (drop (Suc j) (f # fs))
            (updateFiles_loop env config opts pinfo bc (take (Suc j) (f # fs)) st)"
      using ih[THEN conjunct1] by (simp only: take_Suc_Cons drop_Suc_Cons loop_Cons_go[OF t])
    have b: "length (outcomes (updateFiles_loop env config opts pinfo bc (take (Suc j) (f # fs)) st))
        = length (outcomes st) + Suc j"
      using ih[THEN conjunct2] by (simp only: take_Suc_Cons loop_Cons_go[OF t] out) simp
    show ?thesis unfolding Suc using a b by (rule conjI)
  qed
qed

lemma loop_at:
  assumes i: "i < length fs"
    and reached: "thrown (updateFiles_loop env config opts pinfo bc (take i fs) st) = None"
  shows "(updateFiles_loop env config opts pinfo bc fs st
            = updateFile env config opts pinfo bc (fs ! i)
                (updateFiles_loop env config opts pinfo bc (take i fs) st)
          \<or> updateFiles_loop env config opts pinfo bc fs st
            = updateFiles_loop env config opts pinfo bc (drop (Suc i) fs)
                (updateFile env config opts pinfo bc (fs ! i)
                   (updateFiles_loop env config opts pinfo bc (take i fs) st)))
     \<and> length (outcomes st) + i < length (outcomes (updateFiles_loop env config opts pinfo bc fs st))
     \<and> outcomes (updateFile env config opts pinfo bc (fs ! i)
                   (updateFiles_loop env config opts pinfo bc (take i fs) st))
         = outcomes (updateFiles_loop env config opts pinfo bc (take i fs) st)
           @ [outcomes (updateFiles_loop env config opts pinfo bc fs st) ! (length (outcomes st) + i)]"
proof -
  let ?sti = "updateFiles_loop env config opts pinfo bc (take i fs) st"
  let ?st1 = "updateFile env config opts pinfo bc (fs ! i) ?sti"
  let ?st' = "updateFiles_loop env config opts pinfo bc fs st"
  have le: "i \<le> length fs" using i by simp
  note r = loop_reach[OF le reached]
  have d: "drop i fs = fs ! i # drop (Suc i) fs"
    using i by (simp add: Cons_nth_drop_Suc)
  have e: "?st' = updateFiles_loop env config opts pinfo bc (fs ! i # drop (Suc i) fs) ?sti"
    using r[THEN conjunct1] unfolding d .
  have len: "length (outcomes ?sti) = length (outcomes st) + i"
    using r by (rule conjunct2)
  obtain out where out: "outcomes ?st1 = outcomes ?sti @ [out]"
    using step_outcome by blast
  show ?thesis
  proof (cases "thrown ?st1 = None")
    case False
    have e1: "?st' = ?st1"
      unfolding e using False by (rule loop_Cons_thrown)
    have nth: "outcomes ?st' ! (length (outcomes st) + i) = out"
      unfolding e1 out len[symmetric] by simp
    have l: "length (outcomes st) + i < length (outcomes ?st')"
      unfolding e1 out using len by simp
    show ?thesis
      using e1 l out nth by simp
  next
    case True
    have e1: "?st' = updateFiles_loop env config opts pinfo bc (drop (Suc i) fs) ?st1"
      unfolding e using True by (rule loop_Cons_go)
    from loop_outcomes[of env config opts pinfo bc "drop (Suc i) fs" ?st1] obtain new where
      "outcomes (updateFiles_loop env config opts pinfo bc (drop (Suc i) fs) ?st1)
         = outcomes ?st1 @ new
       \<and> length new \<le> length (drop (Suc i) fs)
       \<and> (thrown (updateFiles_loop env config opts pinfo bc (drop (Suc i) fs) ?st1) = None
            \<longrightarrow> length new = length (drop (Suc i) fs))" ..
    then have new: "outcomes ?st' = outcomes ?st1 @ new"
      unfolding e1 by (rule conjunct1)
    have nth: "outcomes ?st' ! (length (outcomes st) + i) = out"
      unfolding new out len[symmetric] by (simp add: nth_append)
    have l: "length (outcomes st) + i < length (outcomes ?st')"
      unfolding new out using len by simp
    show ?thesis
      using e1 l out nth by simp
  qed
qed

section \<open>The installer: the claims\<close>

lemma replace_first_prefix:
  "startsWith t ''~/'' \<Longrightarrow> replace_first ''~/'' [] t = drop 2 t"
  by (cases t) (simp_all add: startsWith_def)

text \<open>
  Claim C4, as the code has it. A target that begins with \<open>~/\<close> resolves to the project
  root joined with the rest of the target, and a bare target resolves to the project root
  joined with the target: not to the source root, and to the same path as the same target
  with the marker in front. The destination of a file with a target is that path, and
  its directory the directory of that path; the destination of a file without a target is
  the directory of the convention joined with the base name of the file's path. (In a
  project without TypeScript a final \<open>.ts\<close> of the destination is then replaced.)
\<close>

theorem resolveTargetDir_project_root:
  "(startsWith t ''~/'' \<longrightarrow>
      resolveTargetDir env pinfo config t = path_join env [cwd config, drop 2 t])
   \<and> (\<not> startsWith t ''~/'' \<longrightarrow>
        resolveTargetDir env pinfo config t = path_join env [cwd config, t]
        \<and> resolveTargetDir env pinfo config (''~/'' @ t) = resolveTargetDir env pinfo config t)
   \<and> (target f \<noteq> [] \<longrightarrow>
        destination env pinfo config f =
          (if typescript config then resolveTargetDir env pinfo config (target f)
           else replace_ts (resolveTargetDir env pinfo config (target f)),
           dirname env (resolveTargetDir env pinfo config (target f))))
   \<and> (target f = [] \<longrightarrow>
        destination env pinfo config f =
          (if typescript config
           then path_join env [getRegistryItemFileTargetPath env f config,
                               basename env (path f)]
           else replace_ts (path_join env [getRegistryItemFileTargetPath env f config,
                                           basename env (path f)]),
           getRegistryItemFileTargetPath env f config))"
proof (intro conjI impI)
  assume "startsWith t ''~/''"
  then show "resolveTargetDir env pinfo config t = path_join env [cwd config, drop 2 t]"
    by (simp add: resolveTargetDir_def replace_first_prefix)
next
  assume "\<not> startsWith t ''~/''"
  then show "resolveTargetDir env pinfo config t = path_join env [cwd config, t]"
    by (simp add: resolveTargetDir_def)
next
  assume bare: "\<not> startsWith t ''~/''"
  have marked: "startsWith (''~/'' @ t) ''~/''"
    by (simp add: startsWith_def)
  show "resolveTargetDir env pinfo config (''~/'' @ t) = resolveTargetDir env pinfo config t"
    using bare marked unfolding resolveTargetDir_def replace_first_prefix[OF marked]
    by simp
next
  assume "target f \<noteq> []"
  then show "destination env pinfo config f =
          (if typescript config then resolveTargetDir env pinfo config (target f)
           else replace_ts (resolveTargetDir env pinfo config (target f)),
           dirname env (resolveTargetDir env pinfo config (target f)))"
    by (simp add: destination_def Let_def)
next
  assume "target f = []"
  then show "destination env pinfo config f =
          (if typescript config
           then path_join env [getRegistryItemFileTargetPath env f config,
                               basename env (path f)]
           else replace_ts (path_join env [getRegistryItemFileTargetPath env f config,
                                           basename env (path f)]),
           getRegistryItemFileTargetPath env f config)"
    by (simp add: destination_def Let_def)
qed

theorem resolveTargetDir_project_root_witness:
  "startsWith ''~/pages/dashboard/index.vue'' ''~/''
   \<and> resolveTargetDir (example_install_env decline_all) None example_config
         ''~/pages/dashboard/index.vue'' = ''/proj/pages/dashboard/index.vue''
   \<and> \<not> startsWith ''pages/dashboard/index.vue'' ''~/''
   \<and> resolveTargetDir (example_install_env decline_all) None example_config
         ''pages/dashboard/index.vue'' = ''/proj/pages/dashboard/index.vue''
   \<and> target dashboard_file \<noteq> []
   \<and> destination (example_install_env decline_all) None example_config dashboard_file
       = (''/proj/pages/dashboard/index.vue'', ''/proj/pages/dashboard'')
   \<and> target (ui_file ''ui/button/Button.vue'' [] ''<template />'') = []
   \<and> destination (example_install_env decline_all) None example_config
         (ui_file ''ui/button/Button.vue'' [] ''<template />'')
       = (''/proj/components/ui/Button.vue'', ''/proj/components/ui'')"
proof -
  let ?env = "example_install_env decline_all"
  let ?ui = "ui_file ''ui/button/Button.vue'' [] ''<template />''"
  note claim = resolveTargetDir_project_root[where env = ?env and pinfo = None
      and config = example_config]
  have h1: "startsWith ''~/pages/dashboard/index.vue'' ''~/''"
    by (simp add: startsWith_def)
  have h2: "\<not> startsWith ''pages/dashboard/index.vue'' ''~/''"
    by (simp add: startsWith_def)
  have h3: "target dashboard_file \<noteq> []"
    by (simp add: dashboard_file_def page_file_def)
  have h4: "target ?ui = []"
    by (simp add: ui_file_def)
  have j1: "path_join ?env [cwd example_config, drop 2 ''~/pages/dashboard/index.vue'']
      = ''/proj/pages/dashboard/index.vue''"
    by code_simp
  have j2: "path_join ?env [cwd example_config, ''pages/dashboard/index.vue'']
      = ''/proj/pages/dashboard/index.vue''"
    by code_simp
  have r1: "resolveTargetDir ?env None example_config ''~/pages/dashboard/index.vue''
      = ''/proj/pages/dashboard/index.vue''"
    using claim[of "''~/pages/dashboard/index.vue''"] h1 j1 by simp
  have r2: "resolveTargetDir ?env None example_config ''pages/dashboard/index.vue''
      = ''/proj/pages/dashboard/index.vue''"
    using claim[of "''pages/dashboard/index.vue''"] h2 j2 by simp
  have t: "target dashboard_file = ''pages/dashboard/index.vue''"
    by (simp add: dashboard_file_def page_file_def)
  have d: "dirname ?env ''/proj/pages/dashboard/index.vue'' = ''/proj/pages/dashboard''"
    by code_simp
  have ts: "typescript example_config"
    by (simp add: example_config_def)
  have r3: "destination ?env None example_config dashboard_file
       = (''/proj/pages/dashboard/index.vue'', ''/proj/pages/dashboard'')"
    using claim[where f = dashboard_file and t = "[]"] h3 by (simp add: t r2 d ts)
  have j4: "path_join ?env [''/proj/components/ui'', basename ?env (path ?ui)]
      = ''/proj/components/ui/Button.vue''"
    by code_simp
  have g4: "getRegistryItemFileTargetPath ?env ?ui example_config = ''/proj/components/ui''"
    by code_simp
  have "destination ?env None example_config ?ui
       = (path_join ?env [getRegistryItemFileTargetPath ?env ?ui example_config,
                          basename ?env (path ?ui)],
          getRegistryItemFileTargetPath ?env ?ui example_config)"
    using claim[where f = ?ui and t = "[]"] h4 ts by simp
  then have r4: "destination ?env None example_config ?ui
       = (''/proj/components/ui/Button.vue'', ''/proj/components/ui'')"
    by (simp only: g4 j4)
  show ?thesis using h1 h2 h3 h4 r1 r2 r3 r4 by blast
qed

text \<open>
  Claim C4 as the specification states it fails on a bare target: in a project with a
  source directory it resolves under the project root, not under its \<open>src\<close>.
\<close>

theorem resolveTargetDir_bare_target_counterexample:
  "resolveTargetDir (example_install_env decline_all) (Some \<lparr>isSrcDir = True\<rparr>) example_config
     ''pages/dashboard/index.vue'' = ''/proj/pages/dashboard/index.vue''
   \<and> \<not> startsWith
        (resolveTargetDir (example_install_env decline_all) (Some \<lparr>isSrcDir = True\<rparr>)
           example_config ''pages/dashboard/index.vue'')
        ''/proj/src/''"
  by code_simp

text \<open>
  The loop body on a file that is not a ui file, has content and whose destination
  exists, in any state.
\<close>

lemma updateFile_existing_step:
  fixes env :: "'fs install_env"
  assumes other: "file_type f \<noteq> Registry_ui"
    and content: "content f \<noteq> []"
    and dest: "destination env pinfo config f = (filePath, targetDir)"
    and existing: "existsSync env (disk st) filePath"
  shows "(overwrite opts = Some True \<longrightarrow>
            asked (updateFile env config opts pinfo bc f st) = asked st
            \<and> filesSkipped (updateFile env config opts pinfo bc f st) = filesSkipped st
            \<and> (\<exists>out. outcomes (updateFile env config opts pinfo bc f st) = outcomes st @ [out]
                   \<and> written_or_failed filePath out)
            \<and> (\<forall>d1 c d2.
                  ensure_dir env (disk st) targetDir = Inr d1
                  \<and> transform env \<lparr>filename = path f, raw = content f,
                                     transform_config = config, transform_baseColor = bc\<rparr> = Inr c
                  \<and> writeFile env d1 filePath c = Inr d2
                  \<longrightarrow> updateFile env config opts pinfo bc f st =
                        st\<lparr>disk := d2,
                           filesUpdated := filesUpdated st @ [path_relative env (cwd config) filePath],
                           outcomes := outcomes st @ [Written filePath c]\<rparr>))
       \<and> (overwrite opts \<noteq> Some True \<longrightarrow>
            asked (updateFile env config opts pinfo bc f st) =
              asked st @ [(File_exists (basename env (path f)),
                           prompts env (asked st) (File_exists (basename env (path f))))]
            \<and> (\<not> prompts env (asked st) (File_exists (basename env (path f))) \<longrightarrow>
                  updateFile env config opts pinfo bc f st =
                    st\<lparr>filesSkipped := filesSkipped st @ [path_relative env (cwd config) filePath],
                       asked := asked st @ [(File_exists (basename env (path f)), False)],
                       outcomes := outcomes st @ [Skipped (path_relative env (cwd config) filePath)]\<rparr>)
            \<and> (prompts env (asked st) (File_exists (basename env (path f))) \<longrightarrow>
                  filesSkipped (updateFile env config opts pinfo bc f st) = filesSkipped st
                  \<and> (\<exists>out. outcomes (updateFile env config opts pinfo bc f st) = outcomes st @ [out]
                         \<and> written_or_failed filePath out)))"
proof (intro conjI impI)
  let ?st' = "updateFile env config opts pinfo bc f st"
  let ?q = "File_exists (basename env (path f))"
  let ?rel = "path_relative env (cwd config) filePath"
  note rc = resolve_conflict_other[OF other, of env config opts filePath st]
  {
    assume ow: "overwrite opts = Some True"
    have r: "resolve_conflict env config opts f filePath st = (False, st)"
      using rc ow by (simp add: Let_def)
    have step: "?st' = write_file env config bc f filePath targetDir True st"
      using content dest r existing by (simp add: updateFile_def)
    note wf = write_file_effect[of env config bc f filePath targetDir True st]
    show "asked ?st' = asked st" unfolding step using wf by (rule conjunct2[THEN conjunct1])
    show "filesSkipped ?st' = filesSkipped st"
      unfolding step using wf by (rule conjunct2[THEN conjunct2, THEN conjunct1])
    show "\<exists>out. outcomes ?st' = outcomes st @ [out] \<and> written_or_failed filePath out"
      unfolding step using wf by (rule conjunct2[THEN conjunct2, THEN conjunct2])
    show "\<forall>d1 c d2.
            ensure_dir env (disk st) targetDir = Inr d1
            \<and> transform env \<lparr>filename = path f, raw = content f,
                               transform_config = config, transform_baseColor = bc\<rparr> = Inr c
            \<and> writeFile env d1 filePath c = Inr d2
            \<longrightarrow> ?st' = st\<lparr>disk := d2, filesUpdated := filesUpdated st @ [?rel],
                          outcomes := outcomes st @ [Written filePath c]\<rparr>"
      unfolding step by (simp add: write_file_def Let_def)
  }
  {
    assume ow: "overwrite opts \<noteq> Some True"
    show "asked ?st' = asked st @ [(?q, prompts env (asked st) ?q)]"
    proof (cases "prompts env (asked st) ?q")
      case True
      have r: "resolve_conflict env config opts f filePath st
          = (False, st\<lparr>asked := asked st @ [(?q, True)]\<rparr>)"
        using rc ow existing True by (simp add: Let_def)
      have step: "?st' = write_file env config bc f filePath targetDir True
          (st\<lparr>asked := asked st @ [(?q, True)]\<rparr>)"
        using content dest r existing by (simp add: updateFile_def)
      show ?thesis
        unfolding step
        using write_file_effect[of env config bc f filePath targetDir True
            "st\<lparr>asked := asked st @ [(?q, True)]\<rparr>"] True
        by simp
    next
      case False
      have r: "resolve_conflict env config opts f filePath st
          = (True, st\<lparr>asked := asked st @ [(?q, False)],
                       filesSkipped := filesSkipped st @ [?rel]\<rparr>)"
        using rc ow existing False by (simp add: Let_def)
      show ?thesis
        using content dest r False by (simp add: updateFile_def)
    qed
    {
      assume no: "\<not> prompts env (asked st) ?q"
      have r: "resolve_conflict env config opts f filePath st
          = (True, st\<lparr>asked := asked st @ [(?q, False)],
                       filesSkipped := filesSkipped st @ [?rel]\<rparr>)"
        using rc ow existing no by (simp add: Let_def)
      show "?st' = st\<lparr>filesSkipped := filesSkipped st @ [?rel],
                       asked := asked st @ [(?q, False)],
                       outcomes := outcomes st @ [Skipped ?rel]\<rparr>"
        using content dest r by (simp add: updateFile_def)
    }
    {
      assume yes: "prompts env (asked st) ?q"
      have r: "resolve_conflict env config opts f filePath st
          = (False, st\<lparr>asked := asked st @ [(?q, True)]\<rparr>)"
        using rc ow existing yes by (simp add: Let_def)
      have step: "?st' = write_file env config bc f filePath targetDir True
          (st\<lparr>asked := asked st @ [(?q, True)]\<rparr>)"
        using content dest r existing by (simp add: updateFile_def)
      note wf = write_file_effect[of env config bc f filePath targetDir True
            "st\<lparr>asked := asked st @ [(?q, True)]\<rparr>"]
      show "filesSkipped ?st' = filesSkipped st"
        unfolding step using wf by simp
      show "\<exists>out. outcomes ?st' = outcomes st @ [out] \<and> written_or_failed filePath out"
        unfolding step using wf by simp
    }
  }
qed

lemma loop_no_content:
  "thrown st = None \<Longrightarrow> \<forall>f\<in>set fs. content f = [] \<Longrightarrow>
   updateFiles_loop env config opts pinfo bc fs st
     = st\<lparr>outcomes := outcomes st @ replicate (length fs) No_content\<rparr>"
proof (induction fs arbitrary: st)
  case Nil
  show ?case by simp
next
  case (Cons f fs)
  let ?st1 = "st\<lparr>outcomes := outcomes st @ [No_content]\<rparr>"
  have step: "updateFile env config opts pinfo bc f st = ?st1"
    using Cons.prems(2) by (simp add: updateFile_def)
  have "thrown ?st1 = None" using Cons.prems(1) by simp
  moreover have "\<forall>f\<in>set fs. content f = []" using Cons.prems(2) by simp
  ultimately have "updateFiles_loop env config opts pinfo bc fs ?st1
      = ?st1\<lparr>outcomes := outcomes ?st1 @ replicate (length fs) No_content\<rparr>"
    by (rule Cons.IH)
  then show ?case
    using Cons.prems(1) by (simp add: step Let_def replicate_app_Cons_same)
qed

text \<open>
  Claim C9, as the code has it. \<open>No files updated.\<close> is reported exactly when the file
  list is not empty, the run came to its end (no call threw), and the created, updated
  and skipped lists are all empty; so it is reported when the list is not empty, every
  file has empty content and the two calls before the loop succeed. For an empty file
  list \<open>updateFiles\<close> returns at once and reports nothing.
\<close>

theorem updateFiles_no_files_updated:
  "(info_no_files_updated (updateFiles env fs config opts d) \<longleftrightarrow>
      fs \<noteq> [] \<and> thrown (final (updateFiles env fs config opts d)) = None
      \<and> filesCreated (final (updateFiles env fs config opts d)) = []
      \<and> filesUpdated (final (updateFiles env fs config opts d)) = []
      \<and> filesSkipped (final (updateFiles env fs config opts d)) = [])
   \<and> (fs \<noteq> [] \<and> (\<forall>f\<in>set fs. content f = [])
        \<and> getProjectInfo env (cwd config) = Inr pinfo
        \<and> getRegistryBaseColor env (baseColor config) = Inr bc
        \<longrightarrow> info_no_files_updated (updateFiles env fs config opts d))
   \<and> (fs = [] \<longrightarrow> returned_early (updateFiles env fs config opts d)
                  \<and> \<not> info_no_files_updated (updateFiles env fs config opts d))"
proof (intro conjI impI)
  show "info_no_files_updated (updateFiles env fs config opts d) \<longleftrightarrow>
      fs \<noteq> [] \<and> thrown (final (updateFiles env fs config opts d)) = None
      \<and> filesCreated (final (updateFiles env fs config opts d)) = []
      \<and> filesUpdated (final (updateFiles env fs config opts d)) = []
      \<and> filesSkipped (final (updateFiles env fs config opts d)) = []"
  proof (cases "fs = []")
    case True
    then show ?thesis by (simp add: updateFiles_def)
  next
    case False
    show ?thesis
    proof (cases "getProjectInfo env (cwd config)")
      case (Inl e)
      with False show ?thesis by (simp add: updateFiles_def initial_state_def)
    next
      case pinfo: (Inr pinfo')
      show ?thesis
      proof (cases "getRegistryBaseColor env (baseColor config)")
        case (Inl e)
        with False pinfo show ?thesis by (simp add: updateFiles_def initial_state_def)
      next
        case (Inr bc')
        with False pinfo show ?thesis by (simp add: updateFiles_def Let_def)
      qed
    qed
  qed
next
  assume a: "fs \<noteq> [] \<and> (\<forall>f\<in>set fs. content f = [])
        \<and> getProjectInfo env (cwd config) = Inr pinfo
        \<and> getRegistryBaseColor env (baseColor config) = Inr bc"
  have "thrown (initial_state d) = None" by (simp add: initial_state_def)
  from loop_no_content[OF this, of fs env config opts pinfo bc] a
  have "updateFiles_loop env config opts pinfo bc fs (initial_state d)
     = (initial_state d)\<lparr>outcomes := outcomes (initial_state d) @ replicate (length fs) No_content\<rparr>"
    by blast
  then show "info_no_files_updated (updateFiles env fs config opts d)"
    using a by (simp add: updateFiles_def Let_def initial_state_def)
next
  assume "fs = []"
  then show "returned_early (updateFiles env fs config opts d)"
    by (simp add: updateFiles_def)
next
  assume "fs = []"
  then show "\<not> info_no_files_updated (updateFiles env fs config opts d)"
    by (simp add: updateFiles_def)
qed

theorem updateFiles_no_files_updated_witness:
  "[ui_file ''ui/button/Button.vue'' ''button/Button.vue'' []] \<noteq> []
   \<and> list_all (\<lambda>f. content f = []) [ui_file ''ui/button/Button.vue'' ''button/Button.vue'' []]
   \<and> getProjectInfo (example_install_env decline_all) (cwd example_config)
       = Inr (Some \<lparr>isSrcDir = True\<rparr>)
   \<and> getRegistryBaseColor (example_install_env decline_all) (baseColor example_config)
       = Inr ''zinc''
   \<and> info_no_files_updated
        (updateFiles (example_install_env decline_all)
           [ui_file ''ui/button/Button.vue'' ''button/Button.vue'' []] example_config no_options [])
   \<and> returned_early (updateFiles (example_install_env decline_all) [] example_config no_options [])
   \<and> \<not> info_no_files_updated
          (updateFiles (example_install_env decline_all) [] example_config no_options [])"
proof -
  let ?env = "example_install_env decline_all"
  let ?fs = "[ui_file ''ui/button/Button.vue'' ''button/Button.vue'' []]"
  have h1: "?fs \<noteq> []" by simp
  have h2: "\<forall>f\<in>set ?fs. content f = []" by (simp add: ui_file_def)
  have h3: "getProjectInfo ?env (cwd example_config) = Inr (Some \<lparr>isSrcDir = True\<rparr>)"
    by (simp add: example_install_env_def)
  have h4: "getRegistryBaseColor ?env (baseColor example_config) = Inr ''zinc''"
    by (simp add: example_install_env_def example_config_def)
  have c1: "info_no_files_updated (updateFiles ?env ?fs example_config no_options [])"
    using updateFiles_no_files_updated[of ?env ?fs example_config no_options "[]"
        "Some \<lparr>isSrcDir = True\<rparr>" "''zinc''"] h1 h2 h3 h4
    by blast
  have c2: "returned_early (updateFiles ?env [] example_config no_options [])
      \<and> \<not> info_no_files_updated (updateFiles ?env [] example_config no_options [])"
    using updateFiles_no_files_updated[of ?env "[]" example_config no_options "[]"]
    by blast
  show ?thesis using h1 h2 h3 h4 c1 c2 by simp
qed

text \<open>
  Claim C9 as the specification states it fails on the empty file list: both totals are
  zero, and \<open>updateFiles\<close> has returned before it reports anything.
\<close>

theorem updateFiles_empty_list_counterexample:
  "returned_early (updateFiles (example_install_env decline_all) [] example_config no_options [])
   \<and> \<not> info_no_files_updated
          (updateFiles (example_install_env decline_all) [] example_config no_options [])
   \<and> filesCreated (final (updateFiles (example_install_env decline_all) [] example_config
                              no_options [])) = []
   \<and> filesUpdated (final (updateFiles (example_install_env decline_all) [] example_config
                              no_options [])) = []
   \<and> filesSkipped (final (updateFiles (example_install_env decline_all) [] example_config
                              no_options [])) = []"
  by (simp add: updateFiles_def initial_state_def)


text \<open>
  An install that got its project information and base colour, and in which no call threw
  on the files before position \<open>i\<close>, takes the file at that position in the state
  \<open>state_before\<close>, leaves it in \<open>state_after\<close>, and ends there or goes on with the
  files after it; the outcome at the position is the one of that file.
\<close>

lemma updateFiles_at:
  fixes env :: "'fs install_env"
  assumes pinfo: "getProjectInfo env (cwd config) = Inr pinfo"
    and bc: "getRegistryBaseColor env (baseColor config) = Inr bc"
    and i: "i < length fs"
    and reached: "thrown (state_before env config opts pinfo bc fs d i) = None"
  shows "(final (updateFiles env fs config opts d) = state_after env config opts pinfo bc fs d i
          \<or> final (updateFiles env fs config opts d)
              = updateFiles_loop env config opts pinfo bc (drop (Suc i) fs)
                  (state_after env config opts pinfo bc fs d i))
     \<and> i < length (outcomes (final (updateFiles env fs config opts d)))
     \<and> outcomes (state_after env config opts pinfo bc fs d i)
         = outcomes (state_before env config opts pinfo bc fs d i)
           @ [outcomes (final (updateFiles env fs config opts d)) ! i]"
proof -
  have ne: "fs \<noteq> []" using i by auto
  have f: "final (updateFiles env fs config opts d)
      = updateFiles_loop env config opts pinfo bc fs (initial_state d)"
    using ne pinfo bc by (simp add: updateFiles_def Let_def)
  have o: "length (outcomes (initial_state d)) + i = i"
    by (simp add: initial_state_def)
  note r = reached[unfolded state_before_def]
  note la = loop_at[OF i r, unfolded o]
  show ?thesis
    unfolding f state_after_def state_before_def by (rule la)
qed

lemma after_lists_grow:
  assumes "st = sa \<or> st = updateFiles_loop env config opts pinfo bc rest sa"
  shows "set (filesUpdated sa) \<subseteq> set (filesUpdated st)
     \<and> set (filesCreated sa) \<subseteq> set (filesCreated st)
     \<and> set (filesSkipped sa) \<subseteq> set (filesSkipped st)"
  using assms
proof
  assume "st = sa"
  then show ?thesis by simp
next
  assume e: "st = updateFiles_loop env config opts pinfo bc rest sa"
  show ?thesis
    unfolding e
    using loop_lists_grow[of sa env config opts pinfo bc rest]
      loop_skipped_grows[of sa env config opts pinfo bc rest]
    by simp
qed

text \<open>
  Claim C8, as the code has it. An install that got its project information and base
  colour comes, no call having thrown before, to a file that is not a ui file and whose
  destination exists at that moment. The file has an outcome in the state the install
  ends in. When it has no content, that is all: no prompt is shown and nothing is written,
  whatever \<open>overwrite\<close> is. When it has content and \<open>overwrite\<close> is \<open>true\<close>, no prompt is
  shown and the file is not skipped: it is written, or a call on the way throws; when the
  three calls succeed the state changes by the written disk and the path added to
  \<open>filesUpdated\<close>, and by nothing else, and the path is in the updated list at the end.
  When it has content and \<open>overwrite\<close> is absent or \<open>false\<close>, exactly one prompt is shown,
  about that file; when it is declined the state changes by the prompt and the path added
  to \<open>filesSkipped\<close> and by nothing else, so nothing is written, and the path is in the
  skipped list at the end; when it is accepted the file is written, or a call on the way
  throws.
\<close>

theorem updateFiles_existing_file:
  fixes env :: "'fs install_env"
  assumes pinfo: "getProjectInfo env (cwd config) = Inr pinfo"
    and bc: "getRegistryBaseColor env (baseColor config) = Inr bc"
    and i: "i < length fs"
    and reached: "thrown (state_before env config opts pinfo bc fs d i) = None"
    and other: "file_type (fs ! i) \<noteq> Registry_ui"
    and dest: "destination env pinfo config (fs ! i) = (filePath, targetDir)"
    and existing: "existsSync env (disk (state_before env config opts pinfo bc fs d i)) filePath"
  shows "let st = final (updateFiles env fs config opts d);
             sb = state_before env config opts pinfo bc fs d i;
             sa = state_after env config opts pinfo bc fs d i;
             q = File_exists (basename env (path (fs ! i)));
             rel = path_relative env (cwd config) filePath
         in (st = sa
              \<or> st = updateFiles_loop env config opts pinfo bc (drop (Suc i) fs) sa)
            \<and> i < length (outcomes st)
            \<and> outcomes sa = outcomes sb @ [outcomes st ! i]
            \<and> (content (fs ! i) = [] \<longrightarrow>
                 sa = sb\<lparr>outcomes := outcomes sb @ [No_content]\<rparr>
                 \<and> outcomes st ! i = No_content)
            \<and> (content (fs ! i) \<noteq> [] \<and> overwrite opts = Some True \<longrightarrow>
                 asked sa = asked sb
                 \<and> filesSkipped sa = filesSkipped sb
                 \<and> written_or_failed filePath (outcomes st ! i)
                 \<and> (\<forall>d1 c' d2.
                        ensure_dir env (disk sb) targetDir = Inr d1
                        \<and> transform env \<lparr>filename = path (fs ! i), raw = content (fs ! i),
                                           transform_config = config,
                                           transform_baseColor = bc\<rparr> = Inr c'
                        \<and> writeFile env d1 filePath c' = Inr d2
                        \<longrightarrow> sa = sb\<lparr>disk := d2, filesUpdated := filesUpdated sb @ [rel],
                                      outcomes := outcomes sb @ [Written filePath c']\<rparr>
                            \<and> outcomes st ! i = Written filePath c'
                            \<and> rel \<in> set (filesUpdated st)))
            \<and> (content (fs ! i) \<noteq> [] \<and> overwrite opts \<noteq> Some True \<longrightarrow>
                 asked sa = asked sb @ [(q, prompts env (asked sb) q)]
                 \<and> (\<not> prompts env (asked sb) q \<longrightarrow>
                        sa = sb\<lparr>filesSkipped := filesSkipped sb @ [rel],
                                   asked := asked sb @ [(q, False)],
                                   outcomes := outcomes sb @ [Skipped rel]\<rparr>
                         \<and> outcomes st ! i = Skipped rel
                         \<and> rel \<in> set (filesSkipped st))
                 \<and> (prompts env (asked sb) q \<longrightarrow>
                        filesSkipped sa = filesSkipped sb
                         \<and> written_or_failed filePath (outcomes st ! i)))"
proof -
  let ?st = "final (updateFiles env fs config opts d)"
  let ?sb = "state_before env config opts pinfo bc fs d i"
  let ?sa = "state_after env config opts pinfo bc fs d i"
  let ?q = "File_exists (basename env (path (fs ! i)))"
  let ?rel = "path_relative env (cwd config) filePath"
  note at = updateFiles_at[OF pinfo bc i reached]
  have link: "?st = ?sa \<or> ?st = updateFiles_loop env config opts pinfo bc (drop (Suc i) fs) ?sa"
    using at by (rule conjunct1)
  have len: "i < length (outcomes ?st)"
    using at by (rule conjunct2[THEN conjunct1])
  have out: "outcomes ?sa = outcomes ?sb @ [outcomes ?st ! i]"
    using at by (rule conjunct2[THEN conjunct2])
  note grow = after_lists_grow[OF link]
  have sa: "?sa = updateFile env config opts pinfo bc (fs ! i) ?sb"
    by (simp add: state_after_def)
  have last_out: "outcomes ?st ! i = x" if "outcomes ?sa = outcomes ?sb @ [x]" for x
    using that out by simp
  have b: "content (fs ! i) = [] \<longrightarrow>
                 ?sa = ?sb\<lparr>outcomes := outcomes ?sb @ [No_content]\<rparr>
                 \<and> outcomes ?st ! i = No_content"
  proof
    assume c: "content (fs ! i) = []"
    have e: "?sa = ?sb\<lparr>outcomes := outcomes ?sb @ [No_content]\<rparr>"
      unfolding sa using c by (simp add: updateFile_def)
    have "outcomes ?sa = outcomes ?sb @ [No_content]"
      unfolding e by simp
    then have "outcomes ?st ! i = No_content" by (rule last_out)
    with e show "?sa = ?sb\<lparr>outcomes := outcomes ?sb @ [No_content]\<rparr>
        \<and> outcomes ?st ! i = No_content" by (rule conjI)
  qed
  have c: "content (fs ! i) \<noteq> [] \<and> overwrite opts = Some True \<longrightarrow>
                 asked ?sa = asked ?sb
                 \<and> filesSkipped ?sa = filesSkipped ?sb
                 \<and> written_or_failed filePath (outcomes ?st ! i)
                 \<and> (\<forall>d1 c' d2.
                        ensure_dir env (disk ?sb) targetDir = Inr d1
                        \<and> transform env \<lparr>filename = path (fs ! i), raw = content (fs ! i),
                                           transform_config = config,
                                           transform_baseColor = bc\<rparr> = Inr c'
                        \<and> writeFile env d1 filePath c' = Inr d2
                        \<longrightarrow> ?sa = ?sb\<lparr>disk := d2, filesUpdated := filesUpdated ?sb @ [?rel],
                                      outcomes := outcomes ?sb @ [Written filePath c']\<rparr>
                            \<and> outcomes ?st ! i = Written filePath c'
                            \<and> ?rel \<in> set (filesUpdated ?st))"
  proof
    assume h: "content (fs ! i) \<noteq> [] \<and> overwrite opts = Some True"
    then have c: "content (fs ! i) \<noteq> []" and ow: "overwrite opts = Some True" by simp_all
    note step = updateFile_existing_step[OF other c dest existing, of opts bc, folded sa]
    note s1 = step[THEN conjunct1, rule_format, OF ow]
    have 1: "asked ?sa = asked ?sb" using s1 by (rule conjunct1)
    have 2: "filesSkipped ?sa = filesSkipped ?sb" using s1 by (rule conjunct2[THEN conjunct1])
    from s1[THEN conjunct2, THEN conjunct2, THEN conjunct1]
    obtain x where x: "outcomes ?sa = outcomes ?sb @ [x]" and w: "written_or_failed filePath x"
      by (elim exE conjE)
    have 3: "written_or_failed filePath (outcomes ?st ! i)"
      using w unfolding last_out[OF x] .
    have 4: "\<forall>d1 c' d2.
                        ensure_dir env (disk ?sb) targetDir = Inr d1
                        \<and> transform env \<lparr>filename = path (fs ! i), raw = content (fs ! i),
                                           transform_config = config,
                                           transform_baseColor = bc\<rparr> = Inr c'
                        \<and> writeFile env d1 filePath c' = Inr d2
                        \<longrightarrow> ?sa = ?sb\<lparr>disk := d2, filesUpdated := filesUpdated ?sb @ [?rel],
                                      outcomes := outcomes ?sb @ [Written filePath c']\<rparr>
                            \<and> outcomes ?st ! i = Written filePath c'
                            \<and> ?rel \<in> set (filesUpdated ?st)"
    proof (intro allI impI)
      fix d1 c' d2
      assume calls: "ensure_dir env (disk ?sb) targetDir = Inr d1
                        \<and> transform env \<lparr>filename = path (fs ! i), raw = content (fs ! i),
                                           transform_config = config,
                                           transform_baseColor = bc\<rparr> = Inr c'
                        \<and> writeFile env d1 filePath c' = Inr d2"
      have e: "?sa = ?sb\<lparr>disk := d2, filesUpdated := filesUpdated ?sb @ [?rel],
                           outcomes := outcomes ?sb @ [Written filePath c']\<rparr>"
        using s1[THEN conjunct2, THEN conjunct2, THEN conjunct2, rule_format, OF calls] .
      have "outcomes ?sa = outcomes ?sb @ [Written filePath c']"
        unfolding e by simp
      then have o: "outcomes ?st ! i = Written filePath c'" by (rule last_out)
      have "?rel \<in> set (filesUpdated ?sa)"
        unfolding e by simp
      then have m: "?rel \<in> set (filesUpdated ?st)"
        using grow by blast
      show "?sa = ?sb\<lparr>disk := d2, filesUpdated := filesUpdated ?sb @ [?rel],
                                      outcomes := outcomes ?sb @ [Written filePath c']\<rparr>
                            \<and> outcomes ?st ! i = Written filePath c'
                            \<and> ?rel \<in> set (filesUpdated ?st)"
        using e o m by (intro conjI)
    qed
    show "asked ?sa = asked ?sb
                 \<and> filesSkipped ?sa = filesSkipped ?sb
                 \<and> written_or_failed filePath (outcomes ?st ! i)
                 \<and> (\<forall>d1 c' d2.
                        ensure_dir env (disk ?sb) targetDir = Inr d1
                        \<and> transform env \<lparr>filename = path (fs ! i), raw = content (fs ! i),
                                           transform_config = config,
                                           transform_baseColor = bc\<rparr> = Inr c'
                        \<and> writeFile env d1 filePath c' = Inr d2
                        \<longrightarrow> ?sa = ?sb\<lparr>disk := d2, filesUpdated := filesUpdated ?sb @ [?rel],
                                      outcomes := outcomes ?sb @ [Written filePath c']\<rparr>
                            \<and> outcomes ?st ! i = Written filePath c'
                            \<and> ?rel \<in> set (filesUpdated ?st))"
      using 1 2 3 4 by (intro conjI)
  qed
  have d: "content (fs ! i) \<noteq> [] \<and> overwrite opts \<noteq> Some True \<longrightarrow>
                 asked ?sa = asked ?sb @ [(?q, prompts env (asked ?sb) ?q)]
                 \<and> (\<not> prompts env (asked ?sb) ?q \<longrightarrow>
                        ?sa = ?sb\<lparr>filesSkipped := filesSkipped ?sb @ [?rel],
                                   asked := asked ?sb @ [(?q, False)],
                                   outcomes := outcomes ?sb @ [Skipped ?rel]\<rparr>
                         \<and> outcomes ?st ! i = Skipped ?rel
                         \<and> ?rel \<in> set (filesSkipped ?st))
                 \<and> (prompts env (asked ?sb) ?q \<longrightarrow>
                        filesSkipped ?sa = filesSkipped ?sb
                         \<and> written_or_failed filePath (outcomes ?st ! i))"
  proof
    assume h: "content (fs ! i) \<noteq> [] \<and> overwrite opts \<noteq> Some True"
    then have c: "content (fs ! i) \<noteq> []" and ow: "overwrite opts \<noteq> Some True" by simp_all
    note step = updateFile_existing_step[OF other c dest existing, of opts bc, folded sa]
    note s2 = step[THEN conjunct2, rule_format, OF ow]
    have 1: "asked ?sa = asked ?sb @ [(?q, prompts env (asked ?sb) ?q)]"
      using s2 by (rule conjunct1)
    have 2: "\<not> prompts env (asked ?sb) ?q \<longrightarrow> ?sa = ?sb\<lparr>filesSkipped := filesSkipped ?sb @ [?rel],
                                   asked := asked ?sb @ [(?q, False)],
                                   outcomes := outcomes ?sb @ [Skipped ?rel]\<rparr>
                         \<and> outcomes ?st ! i = Skipped ?rel
                         \<and> ?rel \<in> set (filesSkipped ?st)"
    proof
      assume no: "\<not> prompts env (asked ?sb) ?q"
      have e: "?sa = ?sb\<lparr>filesSkipped := filesSkipped ?sb @ [?rel],
                           asked := asked ?sb @ [(?q, False)],
                           outcomes := outcomes ?sb @ [Skipped ?rel]\<rparr>"
        using s2[THEN conjunct2, THEN conjunct1, rule_format, OF no] .
      have "outcomes ?sa = outcomes ?sb @ [Skipped ?rel]"
        unfolding e by simp
      then have o: "outcomes ?st ! i = Skipped ?rel" by (rule last_out)
      have "?rel \<in> set (filesSkipped ?sa)"
        unfolding e by simp
      then have m: "?rel \<in> set (filesSkipped ?st)"
        using grow by blast
      show "?sa = ?sb\<lparr>filesSkipped := filesSkipped ?sb @ [?rel],
                                   asked := asked ?sb @ [(?q, False)],
                                   outcomes := outcomes ?sb @ [Skipped ?rel]\<rparr>
                         \<and> outcomes ?st ! i = Skipped ?rel
                         \<and> ?rel \<in> set (filesSkipped ?st)"
        using e o m by (intro conjI)
    qed
    have 3: "prompts env (asked ?sb) ?q \<longrightarrow> filesSkipped ?sa = filesSkipped ?sb
                         \<and> written_or_failed filePath (outcomes ?st ! i)"
    proof
      assume yes: "prompts env (asked ?sb) ?q"
      note s3 = s2[THEN conjunct2, THEN conjunct2, rule_format, OF yes]
      have k: "filesSkipped ?sa = filesSkipped ?sb" using s3 by (rule conjunct1)
      from s3[THEN conjunct2]
      obtain x where x: "outcomes ?sa = outcomes ?sb @ [x]" and w: "written_or_failed filePath x"
        by (elim exE conjE)
      have "written_or_failed filePath (outcomes ?st ! i)"
        using w unfolding last_out[OF x] .
      with k show "filesSkipped ?sa = filesSkipped ?sb
                         \<and> written_or_failed filePath (outcomes ?st ! i)" by (rule conjI)
    qed
    show "asked ?sa = asked ?sb @ [(?q, prompts env (asked ?sb) ?q)]
                 \<and> (\<not> prompts env (asked ?sb) ?q \<longrightarrow>
                        ?sa = ?sb\<lparr>filesSkipped := filesSkipped ?sb @ [?rel],
                                   asked := asked ?sb @ [(?q, False)],
                                   outcomes := outcomes ?sb @ [Skipped ?rel]\<rparr>
                         \<and> outcomes ?st ! i = Skipped ?rel
                         \<and> ?rel \<in> set (filesSkipped ?st))
                 \<and> (prompts env (asked ?sb) ?q \<longrightarrow>
                        filesSkipped ?sa = filesSkipped ?sb
                         \<and> written_or_failed filePath (outcomes ?st ! i))"
      using 1 2 3 by (intro conjI)
  qed
  have main: "(?st = ?sa
              \<or> ?st = updateFiles_loop env config opts pinfo bc (drop (Suc i) fs) ?sa)
            \<and> i < length (outcomes ?st)
            \<and> outcomes ?sa = outcomes ?sb @ [outcomes ?st ! i]
            \<and> (content (fs ! i) = [] \<longrightarrow>
                 ?sa = ?sb\<lparr>outcomes := outcomes ?sb @ [No_content]\<rparr>
                 \<and> outcomes ?st ! i = No_content)
            \<and> (content (fs ! i) \<noteq> [] \<and> overwrite opts = Some True \<longrightarrow>
                 asked ?sa = asked ?sb
                 \<and> filesSkipped ?sa = filesSkipped ?sb
                 \<and> written_or_failed filePath (outcomes ?st ! i)
                 \<and> (\<forall>d1 c' d2.
                        ensure_dir env (disk ?sb) targetDir = Inr d1
                        \<and> transform env \<lparr>filename = path (fs ! i), raw = content (fs ! i),
                                           transform_config = config,
                                           transform_baseColor = bc\<rparr> = Inr c'
                        \<and> writeFile env d1 filePath c' = Inr d2
                        \<longrightarrow> ?sa = ?sb\<lparr>disk := d2, filesUpdated := filesUpdated ?sb @ [?rel],
                                      outcomes := outcomes ?sb @ [Written filePath c']\<rparr>
                            \<and> outcomes ?st ! i = Written filePath c'
                            \<and> ?rel \<in> set (filesUpdated ?st)))
            \<and> (content (fs ! i) \<noteq> [] \<and> overwrite opts \<noteq> Some True \<longrightarrow>
                 asked ?sa = asked ?sb @ [(?q, prompts env (asked ?sb) ?q)]
                 \<and> (\<not> prompts env (asked ?sb) ?q \<longrightarrow>
                        ?sa = ?sb\<lparr>filesSkipped := filesSkipped ?sb @ [?rel],
                                   asked := asked ?sb @ [(?q, False)],
                                   outcomes := outcomes ?sb @ [Skipped ?rel]\<rparr>
                         \<and> outcomes ?st ! i = Skipped ?rel
                         \<and> ?rel \<in> set (filesSkipped ?st))
                 \<and> (prompts env (asked ?sb) ?q \<longrightarrow>
                        filesSkipped ?sa = filesSkipped ?sb
                         \<and> written_or_failed filePath (outcomes ?st ! i)))"
    using link len out b c d by (intro conjI)
  show ?thesis
    unfolding Let_def by (rule main)
qed

theorem updateFiles_existing_file_witness:
  "getProjectInfo (example_install_env decline_all) (cwd example_config)
     = Inr (Some \<lparr>isSrcDir = True\<rparr>)
   \<and> getRegistryBaseColor (example_install_env decline_all) (baseColor example_config)
       = Inr ''zinc''
   \<and> 1 < length [empty_dashboard_file, dashboard_file]
   \<and> thrown (state_before (example_install_env decline_all) example_config overwrite_options
                (Some \<lparr>isSrcDir = True\<rparr>) ''zinc'' [empty_dashboard_file, dashboard_file]
                dashboard_disk 1) = None
   \<and> thrown (state_before (example_install_env decline_all) example_config no_options
                (Some \<lparr>isSrcDir = True\<rparr>) ''zinc'' [empty_dashboard_file, dashboard_file]
                dashboard_disk 1) = None
   \<and> file_type ([empty_dashboard_file, dashboard_file] ! 1) \<noteq> Registry_ui
   \<and> destination (example_install_env decline_all) (Some \<lparr>isSrcDir = True\<rparr>) example_config
         ([empty_dashboard_file, dashboard_file] ! 1)
       = (''/proj/pages/dashboard/index.vue'', ''/proj/pages/dashboard'')
   \<and> existsSync (example_install_env decline_all)
         (disk (state_before (example_install_env decline_all) example_config overwrite_options
                  (Some \<lparr>isSrcDir = True\<rparr>) ''zinc'' [empty_dashboard_file, dashboard_file]
                  dashboard_disk 1))
         ''/proj/pages/dashboard/index.vue''
   \<and> existsSync (example_install_env decline_all)
         (disk (state_before (example_install_env decline_all) example_config no_options
                  (Some \<lparr>isSrcDir = True\<rparr>) ''zinc'' [empty_dashboard_file, dashboard_file]
                  dashboard_disk 1))
         ''/proj/pages/dashboard/index.vue''
   \<and> content ([empty_dashboard_file, dashboard_file] ! 1) \<noteq> []
   \<and> overwrite overwrite_options = Some True
   \<and> asked (state_after (example_install_env decline_all) example_config overwrite_options
               (Some \<lparr>isSrcDir = True\<rparr>) ''zinc'' [empty_dashboard_file, dashboard_file]
               dashboard_disk 1) = []
   \<and> outcomes (final (updateFiles (example_install_env decline_all)
                  [empty_dashboard_file, dashboard_file] example_config overwrite_options
                  dashboard_disk)) ! 1
       = Written ''/proj/pages/dashboard/index.vue'' ''<template />''
   \<and> ''pages/dashboard/index.vue''
       \<in> set (filesUpdated (final (updateFiles (example_install_env decline_all)
                  [empty_dashboard_file, dashboard_file] example_config overwrite_options
                  dashboard_disk)))
   \<and> overwrite no_options \<noteq> Some True
   \<and> asked (state_after (example_install_env decline_all) example_config no_options
               (Some \<lparr>isSrcDir = True\<rparr>) ''zinc'' [empty_dashboard_file, dashboard_file]
               dashboard_disk 1) = [(File_exists ''Dashboard.vue'', False)]
   \<and> outcomes (final (updateFiles (example_install_env decline_all)
                  [empty_dashboard_file, dashboard_file] example_config no_options
                  dashboard_disk)) ! 1
       = Skipped ''pages/dashboard/index.vue''
   \<and> ''pages/dashboard/index.vue''
       \<in> set (filesSkipped (final (updateFiles (example_install_env decline_all)
                  [empty_dashboard_file, dashboard_file] example_config no_options
                  dashboard_disk)))
   \<and> disk (state_after (example_install_env decline_all) example_config no_options
              (Some \<lparr>isSrcDir = True\<rparr>) ''zinc'' [empty_dashboard_file, dashboard_file]
              dashboard_disk 1) = dashboard_disk"
proof -
  let ?env = "example_install_env decline_all"
  let ?pi = "Some \<lparr>isSrcDir = True\<rparr>"
  let ?fs = "[empty_dashboard_file, dashboard_file]"
  let ?p = "''/proj/pages/dashboard/index.vue''"
  let ?sb1 = "state_before ?env example_config overwrite_options ?pi ''zinc'' ?fs dashboard_disk 1"
  let ?sb2 = "state_before ?env example_config no_options ?pi ''zinc'' ?fs dashboard_disk 1"
  let ?sa1 = "state_after ?env example_config overwrite_options ?pi ''zinc'' ?fs dashboard_disk 1"
  let ?sa2 = "state_after ?env example_config no_options ?pi ''zinc'' ?fs dashboard_disk 1"
  let ?st1 = "final (updateFiles ?env ?fs example_config overwrite_options dashboard_disk)"
  let ?st2 = "final (updateFiles ?env ?fs example_config no_options dashboard_disk)"
  let ?q = "File_exists (basename ?env (path (?fs ! 1)))"
  let ?rel = "path_relative ?env (cwd example_config) ?p"
  have h1: "getProjectInfo ?env (cwd example_config) = Inr ?pi"
    by (simp add: example_install_env_def)
  have h2: "getRegistryBaseColor ?env (baseColor example_config) = Inr ''zinc''"
    by (simp add: example_install_env_def example_config_def)
  have h3: "1 < length ?fs"
    by simp
  have sb1: "?sb1 = (initial_state dashboard_disk)\<lparr>outcomes := [No_content]\<rparr>"
    by (simp add: state_before_def updateFile_def empty_dashboard_file_def page_file_def
        initial_state_def)
  have sb2: "?sb2 = (initial_state dashboard_disk)\<lparr>outcomes := [No_content]\<rparr>"
    by (simp add: state_before_def updateFile_def empty_dashboard_file_def page_file_def
        initial_state_def)
  have h4: "thrown ?sb1 = None" and h4': "thrown ?sb2 = None"
    unfolding sb1 sb2 by (simp_all add: initial_state_def)
  have h5: "file_type (?fs ! 1) \<noteq> Registry_ui"
    by (simp add: dashboard_file_def page_file_def)
  have h6: "destination ?env ?pi example_config (?fs ! 1) = (?p, ''/proj/pages/dashboard'')"
    by code_simp
  have ex: "existsSync ?env dashboard_disk ?p"
    by code_simp
  have d1: "disk ?sb1 = dashboard_disk" and d2: "disk ?sb2 = dashboard_disk"
    unfolding sb1 sb2 by (simp_all add: initial_state_def)
  have a1: "asked ?sb1 = []" and a2: "asked ?sb2 = []"
    unfolding sb1 sb2 by (simp_all add: initial_state_def)
  have h7: "existsSync ?env (disk ?sb1) ?p" and h7': "existsSync ?env (disk ?sb2) ?p"
    unfolding d1 d2 by (rule ex)+
  have c: "content (?fs ! 1) \<noteq> []"
    by (simp add: dashboard_file_def page_file_def)
  have o1: "overwrite overwrite_options = Some True"
    by (simp add: overwrite_options_def)
  have o2: "overwrite no_options \<noteq> Some True"
    by (simp add: no_options_def)
  have e: "ensure_dir ?env (disk ?sb1) ''/proj/pages/dashboard'' = Inr dashboard_disk"
    unfolding d1 by code_simp
  have t: "transform ?env \<lparr>filename = path (?fs ! 1), raw = content (?fs ! 1),
                            transform_config = example_config, transform_baseColor = ''zinc''\<rparr>
      = Inr ''<template />''"
    by code_simp
  have w: "writeFile ?env dashboard_disk ?p ''<template />'' = Inr (?p # dashboard_disk)"
    by code_simp
  have b: "basename ?env (path (?fs ! 1)) = ''Dashboard.vue''"
    by code_simp
  have r: "?rel = ''pages/dashboard/index.vue''"
    by code_simp
  have no: "\<not> prompts ?env (asked ?sb2) ?q"
    by (simp add: example_install_env_def decline_all_def)
  note claim1 = updateFiles_existing_file[OF h1 h2 h3 h4 h5 h6 h7, unfolded Let_def]
  note claim2 = updateFiles_existing_file[OF h1 h2 h3 h4' h5 h6 h7', unfolded Let_def]
  note ow = claim1[THEN conjunct2, THEN conjunct2, THEN conjunct2, THEN conjunct2,
      THEN conjunct1, rule_format, OF conjI[OF c o1]]
  note ask = claim2[THEN conjunct2, THEN conjunct2, THEN conjunct2, THEN conjunct2,
      THEN conjunct2, rule_format, OF conjI[OF c o2]]
  have r1: "asked ?sa1 = []"
    using ow[THEN conjunct1] a1 by simp
  note written = ow[THEN conjunct2, THEN conjunct2, THEN conjunct2, rule_format,
      OF conjI[OF e conjI[OF t w]]]
  have r2: "outcomes ?st1 ! 1 = Written ?p ''<template />''"
    using written by (rule conjunct2[THEN conjunct1])
  have r3: "''pages/dashboard/index.vue'' \<in> set (filesUpdated ?st1)"
    using written[THEN conjunct2, THEN conjunct2] unfolding r .
  note declined = ask[THEN conjunct2, THEN conjunct1, rule_format, OF no]
  have "asked ?sa2 = asked ?sb2 @ [(?q, False)]"
    using arg_cong[OF declined[THEN conjunct1], of asked] by simp
  then have r4: "asked ?sa2 = [(File_exists ''Dashboard.vue'', False)]"
    unfolding a2 b by simp
  have r5: "outcomes ?st2 ! 1 = Skipped ''pages/dashboard/index.vue''"
    using declined[THEN conjunct2, THEN conjunct1] unfolding r .
  have r6: "''pages/dashboard/index.vue'' \<in> set (filesSkipped ?st2)"
    using declined[THEN conjunct2, THEN conjunct2] unfolding r .
  have "disk ?sa2 = disk ?sb2"
    using arg_cong[OF declined[THEN conjunct1], of disk] by simp
  then have r7: "disk ?sa2 = dashboard_disk"
    unfolding d2 .
  show ?thesis
    by (intro conjI) (rule h1 h2 h3 h4 h4' h5 h6 h7 h7' c o1 o2 r1 r2 r3 r4 r5 r6 r7)+
qed

text \<open>
  Claim C8 as the specification states it fails on a file without content. The page file
  of the example has no content, its destination exists, and \<open>overwrite\<close> is \<open>true\<close>:
  the file is passed over, nothing is written and the updated list stays empty. And with
  \<open>overwrite\<close> absent no prompt is shown for it.
\<close>

theorem updateFiles_empty_content_counterexample:
  "file_type empty_dashboard_file \<noteq> Registry_ui
   \<and> overwrite overwrite_options = Some True
   \<and> existsSync (example_install_env decline_all) dashboard_disk
         (filePath_of (example_install_env decline_all) example_config empty_dashboard_file)
   \<and> outcomes (final (updateFiles (example_install_env decline_all) [empty_dashboard_file]
                  example_config overwrite_options dashboard_disk)) = [No_content]
   \<and> filesUpdated (final (updateFiles (example_install_env decline_all) [empty_dashboard_file]
                  example_config overwrite_options dashboard_disk)) = []
   \<and> disk (final (updateFiles (example_install_env decline_all) [empty_dashboard_file]
                  example_config overwrite_options dashboard_disk)) = dashboard_disk
   \<and> thrown (final (updateFiles (example_install_env decline_all) [empty_dashboard_file]
                  example_config overwrite_options dashboard_disk)) = None
   \<and> overwrite no_options = None
   \<and> outcomes (final (updateFiles (example_install_env decline_all) [empty_dashboard_file]
                  example_config no_options dashboard_disk)) = [No_content]
   \<and> asked (final (updateFiles (example_install_env decline_all) [empty_dashboard_file]
                  example_config no_options dashboard_disk)) = []"
  by code_simp





end
